theory Spec2Isabelle
  imports Main "HOL-Library.Sublist" "HOL-Library.Word"
begin

unbundle bit_operations_syntax

section \<open>The action search dialog (app/dialogs/action-search-dialog.c)\<close>

subsection \<open>Strings, token arrays and the host functions\<close>

text \<open>
  A \<open>gchar *\<close> that may be \<open>NULL\<close> is a \<open>string option\<close>; a string is the list of its
  characters, so \<open>g_utf8_strlen\<close> is \<open>length\<close> and \<open>g_str_has_prefix str p\<close> is
  \<open>prefix p str\<close>. A \<open>NULL\<close>-terminated \<open>gchar **\<close> array is the list of its entries.
\<close>

type_synonym strv = "string list"

text \<open>
  \<open>g_utf8_get_char\<close> reads the first character of a string; on the empty string it
  reads the terminating NUL, which is \<open>None\<close> here.
\<close>

definition g_utf8_get_char :: "string \<Rightarrow> char option" where
  "g_utf8_get_char s = (case s of [] \<Rightarrow> None | c # _ \<Rightarrow> Some c)"

text \<open>
  The functions the dialog calls and this file does not define: \<open>gimp_strip_uline\<close>
  (libgimpbase), \<open>g_str_tokenize_and_fold\<close> at the configured language (its result and
  the array it stores through its third argument) and \<open>g_strstrip\<close> (GLib). They are
  parameters of the model.
\<close>

record host =
  gimp_strip_uline :: "string \<Rightarrow> string"
  g_str_tokenize_and_fold :: "string \<Rightarrow> strv \<times> strv"
  g_strstrip :: "string \<Rightarrow> string"

record GtkAction =
  action_name :: string
  action_label :: "string option"
  action_tooltip :: "string option"

text \<open>
  The two ways a run ends without a result: reading through a \<open>NULL\<close> pointer, and a
  failed \<open>g_assert\<close>.
\<close>

datatype error = Null_dereference | Assertion_failed

text \<open>
  The \<open>gint *section\<close> argument: \<open>None\<close> is a \<open>NULL\<close> pointer, \<open>Some v\<close> a pointer to a
  cell that holds \<open>v\<close>. \<open>set_section\<close> is the guarded store
  \<open>if (section) *section = v\<close>.
\<close>

definition set_section :: "int option \<Rightarrow> int \<Rightarrow> int option" where
  "set_section section v = (case section of None \<Rightarrow> None | Some _ \<Rightarrow> Some v)"

subsection \<open>\<open>action_search_match_keyword\<close>\<close>

text \<open>
  The inner loops \<open>for (j = 0; tokens[j] != NULL; j++) if (g_str_has_prefix (tokens[j],
  key)) goto ...\<close>: the result tells whether the jump was taken, and the value of \<open>j\<close>
  when the loop is left.
\<close>

fun scan_tokens :: "string \<Rightarrow> strv \<Rightarrow> nat \<Rightarrow> bool \<times> nat" where
  "scan_tokens key [] j = (False, j)"
| "scan_tokens key (t # ts) j =
     (if prefix key t then (True, j) else scan_tokens key ts (Suc j))"

text \<open>
  One key token against the label: the label tokens first, then the alternates, whose
  loop restarts \<open>j\<close> at 0. When neither loop jumps, \<open>j\<close> is the length of the
  alternates.
\<close>

definition locate :: "strv \<Rightarrow> strv \<Rightarrow> string \<Rightarrow> bool \<times> nat" where
  "locate label_tokens label_alternates key =
     (case scan_tokens key label_tokens 0 of
        (True, j) \<Rightarrow> (True, j)
      | (False, _) \<Rightarrow> scan_tokens key label_alternates 0)"

record match_state =
  matched :: bool
  match_start :: bool
  match_ordered :: bool
  previous_matched :: int

text \<open>The body of the loop over the key tokens, from the label \<open>one_matched\<close> on.\<close>

definition one_matched :: "nat \<Rightarrow> bool \<times> nat \<Rightarrow> match_state \<Rightarrow> match_state" where
  "one_matched i r st =
     (let j = snd r;
          st1 = (if fst r then st else st\<lparr>matched := False\<rparr>);
          st2 = (if previous_matched st1 > int j then st1\<lparr>match_ordered := False\<rparr> else st1);
          st3 = st2\<lparr>previous_matched := int j\<rparr>
      in if i \<noteq> j then st3\<lparr>match_start := False\<rparr> else st3)"

fun ordered_loop :: "strv \<Rightarrow> strv \<Rightarrow> strv \<Rightarrow> nat \<Rightarrow> match_state \<Rightarrow> match_state" where
  "ordered_loop lt la [] i st = st"
| "ordered_loop lt la (k # ks) i st =
     ordered_loop lt la ks (Suc i) (one_matched i (locate lt la k) st)"

text \<open>
  The first block. \<open>two_letters\<close> is its guard
  \<open>g_strv_length (key_tokens) == 1 && g_utf8_strlen (key_tokens[0], -1) == 2\<close> with the
  two characters \<open>c1\<close> and \<open>c2\<close> it reads; \<open>initials_of\<close> is one disjunct of the test
  on the label.
\<close>

definition two_letters :: "strv \<Rightarrow> (char option \<times> char option) option" where
  "two_letters key_tokens =
     (case key_tokens of
        [k] \<Rightarrow> (if length k = 2 then Some (g_utf8_get_char k, g_utf8_get_char (tl k))
                else None)
      | _ \<Rightarrow> None)"

definition initials_of :: "strv \<Rightarrow> char option \<Rightarrow> char option \<Rightarrow> bool" where
  "initials_of tokens c1 c2 =
     (case tokens of
        t0 # t1 # _ \<Rightarrow> g_utf8_get_char t0 = c1 \<and> g_utf8_get_char t1 = c2
      | _ \<Rightarrow> False)"

definition initials_block :: "strv \<Rightarrow> strv \<Rightarrow> strv \<Rightarrow> int option \<Rightarrow> bool \<times> int option" where
  "initials_block key_tokens label_tokens label_alternates section =
     (case two_letters key_tokens of
        None \<Rightarrow> (False, section)
      | Some (c1, c2) \<Rightarrow>
          if initials_of label_tokens c1 c2 \<or> initials_of label_alternates c1 c2
          then (True, set_section section 1)
          else (False, section))"

text \<open>
  The second block, entered with the flag and the section cell the first block left.
\<close>

definition ordered_block ::
  "strv \<Rightarrow> strv \<Rightarrow> strv \<Rightarrow> bool \<times> int option \<Rightarrow> bool \<times> int option" where
  "ordered_block key_tokens label_tokens label_alternates r =
     (if \<not> fst r \<and> length label_tokens > 0 then
        let st = ordered_loop label_tokens label_alternates key_tokens 0
                   \<lparr>matched = True, match_start = True, match_ordered = True,
                    previous_matched = - 1\<rparr>
        in (matched st,
            if matched st
            then set_section (snd r)
                   (if match_ordered st then (if match_start st then 1 else 2) else 3)
            else snd r)
      else r)"

text \<open>
  The third block. The state of its loop is the pair of \<open>matched\<close> and \<open>mixed_match\<close>.
  \<open>first_key_strlen\<close> is \<open>g_utf8_strlen (key_tokens[0], -1)\<close>, which is 0 when the
  key has no token and \<open>key_tokens[0]\<close> is the terminating \<open>NULL\<close>.
\<close>

definition tooltip_one ::
  "strv \<Rightarrow> strv \<Rightarrow> strv \<Rightarrow> strv \<Rightarrow> string \<Rightarrow> bool \<times> bool \<Rightarrow> bool \<times> bool" where
  "tooltip_one tooltip_tokens tooltip_alternates label_tokens label_alternates key st =
     (if fst (scan_tokens key tooltip_tokens 0) then st
      else if fst (scan_tokens key tooltip_alternates 0) then st
      else if fst (scan_tokens key label_tokens 0) then (fst st, True)
      else if fst (scan_tokens key label_alternates 0) then (fst st, True)
      else (False, snd st))"

fun tooltip_loop ::
  "strv \<Rightarrow> strv \<Rightarrow> strv \<Rightarrow> strv \<Rightarrow> strv \<Rightarrow> bool \<times> bool \<Rightarrow> bool \<times> bool" where
  "tooltip_loop tt ta lt la [] st = st"
| "tooltip_loop tt ta lt la (k # ks) st =
     tooltip_loop tt ta lt la ks (tooltip_one tt ta lt la k st)"

definition first_key_strlen :: "strv \<Rightarrow> nat" where
  "first_key_strlen key_tokens = (case key_tokens of [] \<Rightarrow> 0 | k # _ \<Rightarrow> length k)"

definition tooltip_block ::
  "host \<Rightarrow> GtkAction \<Rightarrow> strv \<Rightarrow> strv \<Rightarrow> strv \<Rightarrow> bool \<times> int option \<Rightarrow> bool \<times> int option" where
  "tooltip_block h action key_tokens label_tokens label_alternates r =
     (if \<not> fst r \<and> first_key_strlen key_tokens > 2 then
        (case action_tooltip action of
           None \<Rightarrow> r
         | Some tip \<Rightarrow>
             (case g_str_tokenize_and_fold h tip of
                (tooltip_tokens, tooltip_alternates) \<Rightarrow>
                  if length tooltip_tokens > 0 then
                    let st = tooltip_loop tooltip_tokens tooltip_alternates
                               label_tokens label_alternates key_tokens (True, False)
                    in (fst st,
                        if fst st then set_section (snd r) (if snd st then 5 else 4)
                        else snd r)
                  else r))
      else r)"

text \<open>The two label heuristics in sequence, for a label that was tokenized.\<close>

definition label_blocks :: "strv \<Rightarrow> strv \<Rightarrow> strv \<Rightarrow> int option \<Rightarrow> bool \<times> int option" where
  "label_blocks key_tokens label_tokens label_alternates section =
     ordered_block key_tokens label_tokens label_alternates
       (initials_block key_tokens label_tokens label_alternates section)"

text \<open>
  An action without a label. \<open>gtk_action_get_label\<close> gives \<open>NULL\<close>, \<open>tmp\<close> is \<open>NULL\<close>,
  \<open>g_str_tokenize_and_fold\<close> fails its guard and returns \<open>NULL\<close> without storing the
  alternates: \<open>label_tokens\<close> and \<open>label_alternates\<close> are both \<open>NULL\<close>, and
  \<open>g_strv_length\<close> of either is 0. The first block finds no initials and the second is
  not entered, so the third block is reached with \<open>matched\<close> still \<open>FALSE\<close> and the
  section cell untouched. Its loop goes on to the next key token when a tooltip token
  or tooltip alternate has the key token as a prefix; otherwise it reads
  \<open>label_tokens[0]\<close> through the \<open>NULL\<close> pointer. A loop that ends leaves \<open>matched\<close>
  \<open>TRUE\<close> and \<open>mixed_match\<close> \<open>FALSE\<close>.
\<close>

fun tooltip_loop_null :: "strv \<Rightarrow> strv \<Rightarrow> strv \<Rightarrow> error + bool \<times> bool" where
  "tooltip_loop_null tt ta [] = Inr (True, False)"
| "tooltip_loop_null tt ta (k # ks) =
     (if fst (scan_tokens k tt 0) then tooltip_loop_null tt ta ks
      else if fst (scan_tokens k ta 0) then tooltip_loop_null tt ta ks
      else Inl Null_dereference)"

definition tooltip_block_null ::
  "host \<Rightarrow> GtkAction \<Rightarrow> strv \<Rightarrow> int option \<Rightarrow> error + bool \<times> int option" where
  "tooltip_block_null h action key_tokens section =
     (if first_key_strlen key_tokens > 2 then
        (case action_tooltip action of
           None \<Rightarrow> Inr (False, section)
         | Some tip \<Rightarrow>
             (case g_str_tokenize_and_fold h tip of
                (tooltip_tokens, tooltip_alternates) \<Rightarrow>
                  if length tooltip_tokens > 0 then
                    (case tooltip_loop_null tooltip_tokens tooltip_alternates key_tokens of
                       Inl err \<Rightarrow> Inl err
                     | Inr st \<Rightarrow>
                         Inr (fst st,
                              if fst st then set_section section (if snd st then 5 else 4)
                              else section))
                  else Inr (False, section)))
      else Inr (False, section))"

text \<open>
  The whole function. With a label, both arrays exist and the three blocks run on them.
\<close>

definition action_search_match_keyword ::
  "host \<Rightarrow> GtkAction \<Rightarrow> string option \<Rightarrow> int option \<Rightarrow> error + bool \<times> int option" where
  "action_search_match_keyword h action keyword section =
     (case keyword of
        None \<Rightarrow> Inr (True, set_section section 0)
      | Some kw \<Rightarrow>
          let key_tokens = fst (g_str_tokenize_and_fold h kw)
          in (case action_label action of
                None \<Rightarrow> tooltip_block_null h action key_tokens section
              | Some label \<Rightarrow>
                  (case g_str_tokenize_and_fold h (gimp_strip_uline h label) of
                     (label_tokens, label_alternates) \<Rightarrow>
                       Inr (tooltip_block h action key_tokens label_tokens label_alternates
                              (label_blocks key_tokens label_tokens label_alternates
                                 section)))))"

subsection \<open>A tokenizer to run the model on\<close>

text \<open>
  A stand-in for the host functions on lower-case ASCII text: words are the maximal runs
  of letters and digits, there are no alternates, underscores are the mnemonic marks and
  \<open>g_strstrip\<close> removes the blanks at both ends.
\<close>

definition is_alnum :: "char \<Rightarrow> bool" where
  "is_alnum c =
     (let n = (of_char c :: nat)
      in (48 \<le> n \<and> n \<le> 57) \<or> (65 \<le> n \<and> n \<le> 90) \<or> (97 \<le> n \<and> n \<le> 122))"

fun split_words :: "string \<Rightarrow> string \<Rightarrow> strv" where
  "split_words [] w = (if w = [] then [] else [w])"
| "split_words (c # cs) w =
     (if is_alnum c then split_words cs (w @ [c])
      else if w = [] then split_words cs []
      else w # split_words cs [])"

definition ascii_host :: host where
  "ascii_host =
     \<lparr>gimp_strip_uline = filter (\<lambda>c. c \<noteq> CHR ''_''),
      g_str_tokenize_and_fold = (\<lambda>s. (split_words s [], [])),
      g_strstrip = (\<lambda>s. rev (dropWhile (\<lambda>c. c = CHR '' '') (rev (dropWhile (\<lambda>c. c = CHR '' '') s))))\<rparr>"

subsection \<open>Positions of the key tokens, in the words of the specification\<close>

text \<open>
  The position of a key token in the label: the index of the first label token it is a
  prefix of and, when there is none, the index of the first alternate it is a prefix of
  (the number of alternates when there is none either).
\<close>

definition first_index :: "strv \<Rightarrow> string \<Rightarrow> nat" where
  "first_index tokens key = length (takeWhile (\<lambda>t. \<not> prefix key t) tokens)"

definition token_position :: "strv \<Rightarrow> strv \<Rightarrow> string \<Rightarrow> nat" where
  "token_position label_tokens label_alternates key =
     (if \<exists>t\<in>set label_tokens. prefix key t then first_index label_tokens key
      else first_index label_alternates key)"

subsection \<open>\<open>action_search_add_to_results_list\<close>\<close>

text \<open>
  The list store is the list of its rows from top to bottom. A row keeps the columns
  that place it: \<open>COLUMN_ACTION\<close> and \<open>COLUMN_SECTION\<close>; the icon, the markup, the
  tooltip and the sensitivity are computed from the action by GTK and take no part in
  the placement.
\<close>

record row =
  column_action :: GtkAction
  column_section :: int

text \<open>
  The search for the place of the new row, from the iterator \<open>next_section\<close> on. The
  empty list is both an empty store (\<open>gtk_tree_model_get_iter_first\<close> fails) and the
  end of the store (\<open>gtk_tree_model_iter_next\<close> fails): the row is appended.
\<close>

fun list_store_insert :: "int \<Rightarrow> row \<Rightarrow> row list \<Rightarrow> row list" where
  "list_store_insert section new [] = [new]"
| "list_store_insert section new (r # rs) =
     (if column_section r > section then new # r # rs
      else r # list_store_insert section new rs)"

definition action_search_add_to_results_list ::
  "host \<Rightarrow> GtkAction \<Rightarrow> int \<Rightarrow> row list \<Rightarrow> row list" where
  "action_search_add_to_results_list h action section store =
     (case action_label action of
        None \<Rightarrow> store
      | Some l \<Rightarrow>
          let label = g_strstrip h (gimp_strip_uline h l)
          in if length label = 0 then store
             else list_store_insert section
                    \<lparr>column_action = action, column_section = section\<rparr> store)"

subsection \<open>\<open>action_search_history_and_actions\<close>\<close>

text \<open>
  What the function reads from the application: the history search
  (\<open>gimp_action_history_search\<close> with the matcher and the keyword), the action groups
  of the UI manager with each group's actions sorted by name, the exclusion test
  \<open>gimp_action_history_excluded_action\<close>, the sensitivity of an action and the
  \<open>search_show_unavailable\<close> setting.
\<close>

record search_env =
  history_search :: "string option \<Rightarrow> GtkAction list"
  action_groups :: "GtkAction list list"
  history_excluded_action :: "string \<Rightarrow> bool"
  action_is_sensitive :: "GtkAction \<Rightarrow> bool"
  search_show_unavailable :: bool

fun history_loop :: "host \<Rightarrow> GtkAction list \<Rightarrow> row list \<Rightarrow> row list" where
  "history_loop h [] store = store"
| "history_loop h (a # as) store =
     history_loop h as (action_search_add_to_results_list h a 0 store)"

text \<open>
  The body of the loop over the actions of a group. \<open>section0\<close> is the value the
  uninitialised local \<open>section\<close> holds before the matcher is called. The run has no
  error path of its own: it ends without a list only where the matcher reads through
  \<open>NULL\<close>.
\<close>

definition consider_action ::
  "host \<Rightarrow> search_env \<Rightarrow> string option \<Rightarrow> int \<Rightarrow> GtkAction list \<Rightarrow> GtkAction \<Rightarrow> row list
     \<Rightarrow> error + row list" where
  "consider_action h e keyword section0 history_actions action store =
     (let name = action_name action
      in if history_excluded_action e name \<and> name \<noteq> ''plug-in-repeat''
              \<and> name \<noteq> ''plug-in-reshow''
         then Inr store
         else if \<not> action_is_sensitive e action \<and> \<not> search_show_unavailable e
         then Inr store
         else
           (case action_search_match_keyword h action keyword (Some section0) of
              Inl err \<Rightarrow> Inl err
            | Inr (m, cell) \<Rightarrow>
                if m \<and> \<not> list_ex (\<lambda>ha. action_name ha = name) history_actions
                then Inr (action_search_add_to_results_list h action
                            (case cell of None \<Rightarrow> section0 | Some v \<Rightarrow> v) store)
                else Inr store))"

fun group_loop ::
  "host \<Rightarrow> search_env \<Rightarrow> string option \<Rightarrow> int \<Rightarrow> GtkAction list \<Rightarrow> GtkAction list \<Rightarrow> row list
     \<Rightarrow> error + row list" where
  "group_loop h e keyword section0 hist [] store = Inr store"
| "group_loop h e keyword section0 hist (a # as) store =
     (case consider_action h e keyword section0 hist a store of
        Inl err \<Rightarrow> Inl err
      | Inr store' \<Rightarrow> group_loop h e keyword section0 hist as store')"

fun groups_loop ::
  "host \<Rightarrow> search_env \<Rightarrow> string option \<Rightarrow> int \<Rightarrow> GtkAction list \<Rightarrow> GtkAction list list
     \<Rightarrow> row list \<Rightarrow> error + row list" where
  "groups_loop h e keyword section0 hist [] store = Inr store"
| "groups_loop h e keyword section0 hist (g # gs) store =
     (case group_loop h e keyword section0 hist g store of
        Inl err \<Rightarrow> Inl err
      | Inr store' \<Rightarrow> groups_loop h e keyword section0 hist gs store')"

definition action_search_history_and_actions ::
  "host \<Rightarrow> search_env \<Rightarrow> string option \<Rightarrow> int \<Rightarrow> row list \<Rightarrow> error + row list" where
  "action_search_history_and_actions h e keyword section0 store =
     (if keyword = Some [] then Inr store
      else
        let history_actions = history_search e keyword
        in groups_loop h e keyword section0 history_actions (action_groups e)
             (history_loop h history_actions store))"

text \<open>The rows the history actions contribute: those with a label that is not blank.\<close>

definition has_label :: "host \<Rightarrow> GtkAction \<Rightarrow> bool" where
  "has_label h action =
     (case action_label action of
        None \<Rightarrow> False
      | Some l \<Rightarrow> g_strstrip h (gimp_strip_uline h l) \<noteq> [])"

definition history_rows :: "host \<Rightarrow> GtkAction list \<Rightarrow> row list" where
  "history_rows h actions =
     map (\<lambda>a. \<lparr>column_action = a, column_section = 0\<rparr>) (filter (has_label h) actions)"

text \<open>
  The matcher's result with a section cell supplied: the cell still holds a value, and
  after a match the value is one of the sections 0 to 5.
\<close>

definition cell_in_range :: "bool \<times> int option \<Rightarrow> bool" where
  "cell_in_range r = (\<exists>v. snd r = Some v \<and> (fst r \<longrightarrow> 0 \<le> v \<and> v \<le> 5))"

subsection \<open>Sample actions\<close>

text \<open>Three actions, one of them without a label, and an application state.\<close>

definition blur_action :: GtkAction where
  "blur_action = \<lparr>action_name = ''filters-blur'', action_label = Some ''_blur'',
                   action_tooltip = Some ''simple blur''\<rparr>"

definition gaussian_action :: GtkAction where
  "gaussian_action = \<lparr>action_name = ''filters-gaussian-blur'',
                       action_label = Some ''gaussian blur'', action_tooltip = None\<rparr>"

definition unlabelled_action :: GtkAction where
  "unlabelled_action = \<lparr>action_name = ''plug-in-recent-01'', action_label = None,
                         action_tooltip = None\<rparr>"

definition sample_env :: search_env where
  "sample_env = \<lparr>history_search = (\<lambda>k. [blur_action]),
                  action_groups = [[blur_action, gaussian_action, unlabelled_action]],
                  history_excluded_action = (\<lambda>n. False),
                  action_is_sensitive = (\<lambda>a. True),
                  search_show_unavailable = False\<rparr>"

section \<open>The configuration interface (libgimpconfig/gimpconfig-iface.c)\<close>

subsection \<open>Objects, property specifications and the interface\<close>

text \<open>
  An object has its instance type, its address and the values of its properties by
  name; an object-valued property holds an object or \<open>NULL\<close>. Aggregated objects are
  owned by their parent, so the value of a property contains the object it holds.
  \<open>V_init\<close> is a \<open>GValue\<close> as \<open>g_value_init\<close> leaves it.
\<close>

type_synonym gtype = nat

datatype gvalue = V_init | V_int int | V_string string | V_object "gobject option"
and gobject = GObject (g_type: gtype) (address: nat) (properties: "(string \<times> gvalue) list")

record GParamSpec =
  pspec_name :: string
  pspec_flags :: "32 word"
  value_type :: gtype
  is_param_spec_object :: bool

text \<open>
  The flag bits are those of \<open>gparam.h\<close> and \<open>gimpconfig-params.h\<close>:
  \<open>G_PARAM_READABLE = 1 << 0\<close>, \<open>G_PARAM_USER_SHIFT = 8\<close> and
  \<open>GIMP_CONFIG_PARAM_AGGREGATE = 1 << (1 + G_PARAM_USER_SHIFT)\<close>.
\<close>

definition G_PARAM_READABLE :: "32 word" where
  "G_PARAM_READABLE = 1"

definition G_PARAM_USER_SHIFT :: nat where
  "G_PARAM_USER_SHIFT = 8"

definition GIMP_CONFIG_PARAM_AGGREGATE :: "32 word" where
  "GIMP_CONFIG_PARAM_AGGREGATE = push_bit (1 + G_PARAM_USER_SHIFT) 1"

text \<open>
  The slots of \<open>GimpConfigInterface\<close> the claims are about. A callback acts on the
  world \<open>'w\<close>: the files, the writer, the scanner, the object and the \<open>GError\<close> cell
  behind the \<open>error\<close> argument. The \<open>equal\<close> slot holds the default
  \<open>gimp_config_iface_equal\<close> of this file or an implementation of the class.
\<close>

datatype equal_slot = Iface_equal | Custom_equal "gobject \<Rightarrow> gobject \<Rightarrow> bool"

type_synonym GimpConfigWriter = nat
type_synonym GScanner = nat
type_synonym GString = nat
type_synonym GFile = nat
type_synonym GInputStream = nat
type_synonym gpointer = nat

record 'w GimpConfigInterface =
  serialize :: "gobject \<Rightarrow> GimpConfigWriter option \<Rightarrow> gpointer \<Rightarrow> 'w \<Rightarrow> bool \<times> 'w"
  deserialize :: "gobject \<Rightarrow> GScanner option \<Rightarrow> int \<Rightarrow> gpointer \<Rightarrow> 'w \<Rightarrow> bool \<times> 'w"
  equal_impl :: equal_slot

text \<open>
  The GObject type system as this file uses it: \<open>g_object_class_list_properties\<close>,
  the \<open>GimpConfig\<close> interface of a type (\<open>g_type_interface_peek\<close>; \<open>None\<close> when the
  type does not implement it) and \<open>g_param_values_cmp\<close>.
\<close>

record 'w type_system =
  list_properties :: "gtype \<Rightarrow> GParamSpec list"
  config_interface :: "gtype \<Rightarrow> 'w GimpConfigInterface option"
  param_values_cmp :: "GParamSpec \<Rightarrow> gvalue \<Rightarrow> gvalue \<Rightarrow> int"

definition g_object_get_property :: "gobject \<Rightarrow> string \<Rightarrow> gvalue" where
  "g_object_get_property object name =
     (case map_of (properties object) name of None \<Rightarrow> V_init | Some v \<Rightarrow> v)"

definition g_value_get_object :: "gvalue \<Rightarrow> gobject option" where
  "g_value_get_object v = (case v of V_object obj \<Rightarrow> obj | _ \<Rightarrow> None)"

text \<open>
  \<open>GIMP_IS_CONFIG (config)\<close> and \<open>GIMP_CONFIG_GET_INTERFACE (config)\<close>: a \<open>NULL\<close>
  pointer and an object whose type does not implement the interface are not a
  \<open>GimpConfig\<close>.
\<close>

definition get_interface ::
  "'w type_system \<Rightarrow> gobject option \<Rightarrow> (gobject \<times> 'w GimpConfigInterface) option" where
  "get_interface ts config =
     (case config of
        None \<Rightarrow> None
      | Some obj \<Rightarrow>
          (case config_interface ts (g_type obj) of
             None \<Rightarrow> None
           | Some iface \<Rightarrow> Some (obj, iface)))"

definition GIMP_IS_CONFIG :: "'w type_system \<Rightarrow> gobject option \<Rightarrow> bool" where
  "GIMP_IS_CONFIG ts config = (get_interface ts config \<noteq> None)"

subsection \<open>\<open>gimp_config_is_equal_to\<close> and \<open>gimp_config_iface_equal\<close>\<close>

text \<open>
  The comparison descends into the objects held by the properties, which are smaller
  than the object that holds them.
\<close>

fun osize :: "gobject option \<Rightarrow> nat" where
  "osize None = 0"
| "osize (Some obj) = size obj"

lemma map_of_size:
  "map_of ps n = Some (V_object (Some obj)) \<Longrightarrow> size obj < size_list (size_prod (\<lambda>_. 0) size) ps"
  by (induction ps) (auto split: if_splits)

lemma get_object_size:
  "g_value_get_object (g_object_get_property a n) = Some obj \<Longrightarrow> size obj < size a"
  using map_of_size [of "properties a" n obj]
  by (cases a) (auto simp: g_value_get_object_def g_object_get_property_def
      split: option.splits gvalue.splits)

lemma osize_get_object:
  "osize (g_value_get_object (g_object_get_property a n)) < size a"
proof (cases "g_value_get_object (g_object_get_property a n)")
  case None
  then show ?thesis by (cases a) simp
next
  case (Some obj)
  then show ?thesis using get_object_size [of a n obj] by simp
qed

text \<open>
  \<open>equal_loop\<close> is the loop \<open>for (i = 0; equal && i < n_property_specs; i++)\<close> from the
  property \<open>i\<close> on, while \<open>equal\<close> is still \<open>TRUE\<close>: it stops with \<open>FALSE\<close> at the first
  property that differs.
\<close>

function gimp_config_is_equal_to :: "'w type_system \<Rightarrow> gobject option \<Rightarrow> gobject option \<Rightarrow> bool"
  and gimp_config_iface_equal :: "'w type_system \<Rightarrow> gobject \<Rightarrow> gobject \<Rightarrow> bool"
  and equal_loop :: "'w type_system \<Rightarrow> gobject \<Rightarrow> gobject \<Rightarrow> GParamSpec list \<Rightarrow> bool"
where
  "gimp_config_is_equal_to ts a b =
     (case get_interface ts a of
        None \<Rightarrow> False
      | Some (obj_a, iface) \<Rightarrow>
          (case get_interface ts b of
             None \<Rightarrow> False
           | Some (obj_b, _) \<Rightarrow>
               if g_type obj_a \<noteq> g_type obj_b then False
               else (case equal_impl iface of
                       Iface_equal \<Rightarrow> gimp_config_iface_equal ts obj_a obj_b
                     | Custom_equal f \<Rightarrow> f obj_a obj_b)))"
| "gimp_config_iface_equal ts a b = equal_loop ts a b (list_properties ts (g_type a))"
| "equal_loop ts a b [] = True"
| "equal_loop ts a b (prop_spec # rest) =
     (if pspec_flags prop_spec AND G_PARAM_READABLE = 0 then equal_loop ts a b rest
      else
        let a_value = g_object_get_property a (pspec_name prop_spec);
            b_value = g_object_get_property b (pspec_name prop_spec)
        in if param_values_cmp ts prop_spec a_value b_value \<noteq> 0 then
             (if pspec_flags prop_spec AND GIMP_CONFIG_PARAM_AGGREGATE \<noteq> 0
                 \<and> is_param_spec_object prop_spec
                 \<and> config_interface ts (value_type prop_spec) \<noteq> None
              then
                (if \<not> gimp_config_is_equal_to ts (g_value_get_object a_value)
                         (g_value_get_object b_value)
                 then False
                 else equal_loop ts a b rest)
              else False)
           else equal_loop ts a b rest)"
  by pat_completeness auto
termination
  apply (relation "measures
     [\<lambda>x. case x of Inl (ts, a, b) \<Rightarrow> osize a
                  | Inr (Inl (ts, a, b)) \<Rightarrow> size a
                  | Inr (Inr (ts, a, b, ps)) \<Rightarrow> size a,
      \<lambda>x. case x of Inl _ \<Rightarrow> 2 | Inr (Inl _) \<Rightarrow> 1 | Inr (Inr _) \<Rightarrow> 0,
      \<lambda>x. case x of Inr (Inr (ts, a, b, ps)) \<Rightarrow> length ps | _ \<Rightarrow> 0]")
       apply (auto simp: get_interface_def osize_get_object split: option.splits)
  done

text \<open>
  One property in the words of the specification: the two values compare equal, or the
  property is an aggregate, object-valued one whose value type implements \<open>GimpConfig\<close>
  and the two objects are equal for \<open>gimp_config_is_equal_to\<close>.
\<close>

definition property_equal :: "'w type_system \<Rightarrow> gobject \<Rightarrow> gobject \<Rightarrow> GParamSpec \<Rightarrow> bool" where
  "property_equal ts a b prop_spec =
     (let a_value = g_object_get_property a (pspec_name prop_spec);
          b_value = g_object_get_property b (pspec_name prop_spec)
      in param_values_cmp ts prop_spec a_value b_value = 0 \<or>
         (pspec_flags prop_spec AND GIMP_CONFIG_PARAM_AGGREGATE \<noteq> 0 \<and>
          is_param_spec_object prop_spec \<and>
          config_interface ts (value_type prop_spec) \<noteq> None \<and>
          gimp_config_is_equal_to ts (g_value_get_object a_value) (g_value_get_object b_value)))"

subsection \<open>Writers, scanners and the world\<close>

text \<open>
  What the serialization functions call outside this file, as functions on the world.
  The \<open>GError **error\<close> argument is the flag \<open>error\<close> (the location is not \<open>NULL\<close>);
  \<open>error_is_set\<close> reads \<open>*error != NULL\<close> from the world. \<open>g_string_free\<close> is called
  with \<open>free_segment = FALSE\<close> and gives the character data.
\<close>

record 'w host_io =
  error_is_set :: "'w \<Rightarrow> bool"
  gimp_config_writer_new_file ::
    "string \<Rightarrow> bool \<Rightarrow> string option \<Rightarrow> bool \<Rightarrow> 'w \<Rightarrow> GimpConfigWriter option \<times> 'w"
  gimp_config_writer_new_string :: "GString \<Rightarrow> 'w \<Rightarrow> GimpConfigWriter option \<times> 'w"
  gimp_config_writer_finish ::
    "GimpConfigWriter option \<Rightarrow> string option \<Rightarrow> bool \<Rightarrow> 'w \<Rightarrow> bool \<times> 'w"
  g_string_new :: "'w \<Rightarrow> GString \<times> 'w"
  g_string_free :: "GString \<Rightarrow> 'w \<Rightarrow> string \<times> 'w"
  gimp_scanner_new_file :: "string \<Rightarrow> bool \<Rightarrow> 'w \<Rightarrow> GScanner option \<times> 'w"
  gimp_scanner_new_gfile :: "GFile \<Rightarrow> bool \<Rightarrow> 'w \<Rightarrow> GScanner option \<times> 'w"
  gimp_scanner_new_stream :: "GInputStream \<Rightarrow> bool \<Rightarrow> 'w \<Rightarrow> GScanner option \<times> 'w"
  gimp_scanner_new_string :: "string option \<Rightarrow> int \<Rightarrow> bool \<Rightarrow> 'w \<Rightarrow> GScanner option \<times> 'w"
  gimp_scanner_destroy :: "GScanner option \<Rightarrow> 'w \<Rightarrow> 'w"
  g_object_freeze_notify :: "gobject \<Rightarrow> 'w \<Rightarrow> 'w"
  g_object_thaw_notify :: "gobject \<Rightarrow> 'w \<Rightarrow> 'w"

subsection \<open>Serialization\<close>

definition gimp_config_serialize_to_file ::
  "'w type_system \<Rightarrow> 'w host_io \<Rightarrow> gobject option \<Rightarrow> string option \<Rightarrow> string option
     \<Rightarrow> string option \<Rightarrow> gpointer \<Rightarrow> bool \<Rightarrow> 'w \<Rightarrow> bool \<times> 'w" where
  "gimp_config_serialize_to_file ts io config filename header footer data error w =
     (case get_interface ts config of
        None \<Rightarrow> (False, w)
      | Some (obj, iface) \<Rightarrow>
          (case filename of
             None \<Rightarrow> (False, w)
           | Some fn \<Rightarrow>
               if \<not> (\<not> error \<or> \<not> error_is_set io w) then (False, w)
               else
                 (case gimp_config_writer_new_file io fn True header error w of
                    (None, w1) \<Rightarrow> (False, w1)
                  | (Some writer, w1) \<Rightarrow>
                      (case serialize iface obj (Some writer) data w1 of
                         (_, w2) \<Rightarrow>
                           gimp_config_writer_finish io (Some writer) footer error w2))))"

definition gimp_config_serialize_to_string ::
  "'w type_system \<Rightarrow> 'w host_io \<Rightarrow> gobject option \<Rightarrow> gpointer \<Rightarrow> 'w \<Rightarrow> string option \<times> 'w" where
  "gimp_config_serialize_to_string ts io config data w =
     (case get_interface ts config of
        None \<Rightarrow> (None, w)
      | Some (obj, iface) \<Rightarrow>
          (case g_string_new io w of
             (str, w1) \<Rightarrow>
               (case gimp_config_writer_new_string io str w1 of
                  (writer, w2) \<Rightarrow>
                    (case serialize iface obj writer data w2 of
                       (_, w3) \<Rightarrow>
                         (case gimp_config_writer_finish io writer None False w3 of
                            (_, w4) \<Rightarrow>
                              (case g_string_free io str w4 of
                                 (text, w5) \<Rightarrow> (Some text, w5)))))))"

definition gimp_config_serialize ::
  "'w type_system \<Rightarrow> gobject option \<Rightarrow> GimpConfigWriter option \<Rightarrow> gpointer \<Rightarrow> 'w \<Rightarrow> bool \<times> 'w" where
  "gimp_config_serialize ts config writer data w =
     (case get_interface ts config of
        None \<Rightarrow> (False, w)
      | Some (obj, iface) \<Rightarrow> serialize iface obj writer data w)"

subsection \<open>Deserialization\<close>

text \<open>
  The four file-like entry points share their second half, from
  \<open>g_object_freeze_notify\<close> to the return; \<open>deserialize_with\<close> is that half. A failed
  \<open>g_assert\<close> aborts the program.
\<close>

definition deserialize_with ::
  "'w host_io \<Rightarrow> gobject \<Rightarrow> 'w GimpConfigInterface \<Rightarrow> GScanner option \<Rightarrow> gpointer \<Rightarrow> bool \<Rightarrow> 'w
     \<Rightarrow> error + bool \<times> 'w" where
  "deserialize_with io obj iface scanner data error w =
     (case deserialize iface obj scanner 0 data (g_object_freeze_notify io obj w) of
        (success, w2) \<Rightarrow>
          let w3 = g_object_thaw_notify io obj w2;
              w4 = gimp_scanner_destroy io scanner w3
          in if \<not> success \<and> \<not> (\<not> error \<or> error_is_set io w4) then Inl Assertion_failed
             else Inr (success, w4))"

definition gimp_config_deserialize_file ::
  "'w type_system \<Rightarrow> 'w host_io \<Rightarrow> gobject option \<Rightarrow> string option \<Rightarrow> gpointer \<Rightarrow> bool \<Rightarrow> 'w
     \<Rightarrow> error + bool \<times> 'w" where
  "gimp_config_deserialize_file ts io config filename data error w =
     (case get_interface ts config of
        None \<Rightarrow> Inr (False, w)
      | Some (obj, iface) \<Rightarrow>
          (case filename of
             None \<Rightarrow> Inr (False, w)
           | Some fn \<Rightarrow>
               if \<not> (\<not> error \<or> \<not> error_is_set io w) then Inr (False, w)
               else
                 (case gimp_scanner_new_file io fn error w of
                    (None, w1) \<Rightarrow> Inr (False, w1)
                  | (Some scanner, w1) \<Rightarrow>
                      deserialize_with io obj iface (Some scanner) data error w1)))"

definition gimp_config_deserialize_gfile ::
  "'w type_system \<Rightarrow> 'w host_io \<Rightarrow> gobject option \<Rightarrow> GFile option \<Rightarrow> gpointer \<Rightarrow> bool \<Rightarrow> 'w
     \<Rightarrow> error + bool \<times> 'w" where
  "gimp_config_deserialize_gfile ts io config file data error w =
     (case get_interface ts config of
        None \<Rightarrow> Inr (False, w)
      | Some (obj, iface) \<Rightarrow>
          (case file of
             None \<Rightarrow> Inr (False, w)
           | Some f \<Rightarrow>
               if \<not> (\<not> error \<or> \<not> error_is_set io w) then Inr (False, w)
               else
                 (case gimp_scanner_new_gfile io f error w of
                    (None, w1) \<Rightarrow> Inr (False, w1)
                  | (Some scanner, w1) \<Rightarrow>
                      deserialize_with io obj iface (Some scanner) data error w1)))"

definition gimp_config_deserialize_stream ::
  "'w type_system \<Rightarrow> 'w host_io \<Rightarrow> gobject option \<Rightarrow> GInputStream option \<Rightarrow> gpointer \<Rightarrow> bool
     \<Rightarrow> 'w \<Rightarrow> error + bool \<times> 'w" where
  "gimp_config_deserialize_stream ts io config input data error w =
     (case get_interface ts config of
        None \<Rightarrow> Inr (False, w)
      | Some (obj, iface) \<Rightarrow>
          (case input of
             None \<Rightarrow> Inr (False, w)
           | Some i \<Rightarrow>
               if \<not> (\<not> error \<or> \<not> error_is_set io w) then Inr (False, w)
               else
                 (case gimp_scanner_new_stream io i error w of
                    (None, w1) \<Rightarrow> Inr (False, w1)
                  | (Some scanner, w1) \<Rightarrow>
                      deserialize_with io obj iface (Some scanner) data error w1)))"

definition gimp_config_deserialize_string ::
  "'w type_system \<Rightarrow> 'w host_io \<Rightarrow> gobject option \<Rightarrow> string option \<Rightarrow> int \<Rightarrow> gpointer \<Rightarrow> bool
     \<Rightarrow> 'w \<Rightarrow> error + bool \<times> 'w" where
  "gimp_config_deserialize_string ts io config text text_len data error w =
     (case get_interface ts config of
        None \<Rightarrow> Inr (False, w)
      | Some (obj, iface) \<Rightarrow>
          if \<not> (text \<noteq> None \<or> text_len = 0) then Inr (False, w)
          else if \<not> (\<not> error \<or> \<not> error_is_set io w) then Inr (False, w)
          else
            (case gimp_scanner_new_string io text text_len error w of
               (scanner, w1) \<Rightarrow> deserialize_with io obj iface scanner data error w1))"

definition gimp_config_deserialize ::
  "'w type_system \<Rightarrow> gobject option \<Rightarrow> GScanner option \<Rightarrow> int \<Rightarrow> gpointer \<Rightarrow> 'w \<Rightarrow> bool \<times> 'w" where
  "gimp_config_deserialize ts config scanner nest_level data w =
     (case get_interface ts config of
        None \<Rightarrow> (False, w)
      | Some (obj, iface) \<Rightarrow> deserialize iface obj scanner nest_level data w)"

subsection \<open>What a deserialization reports\<close>

text \<open>
  \<open>after_callback\<close> is the result of the \<open>deserialize\<close> callback run between
  \<open>g_object_freeze_notify\<close> and \<open>g_object_thaw_notify\<close>, with the world after the
  scanner is destroyed. \<open>reports_callback\<close> relates it to what an entry point gives: the
  entry point returns the callback's result in that world, and when it returns \<open>FALSE\<close>
  with an error location the error is set; it aborts exactly when the callback failed
  and left a supplied error location empty.
\<close>

definition after_callback ::
  "'w host_io \<Rightarrow> gobject \<Rightarrow> 'w GimpConfigInterface \<Rightarrow> GScanner option \<Rightarrow> gpointer \<Rightarrow> 'w
     \<Rightarrow> bool \<times> 'w" where
  "after_callback io obj iface scanner data w =
     (case deserialize iface obj scanner 0 data (g_object_freeze_notify io obj w) of
        (success, w2) \<Rightarrow>
          (success, gimp_scanner_destroy io scanner (g_object_thaw_notify io obj w2)))"

definition reports_callback ::
  "'w host_io \<Rightarrow> bool \<Rightarrow> bool \<times> 'w \<Rightarrow> error + bool \<times> 'w \<Rightarrow> bool" where
  "reports_callback io error after res =
     (case res of
        Inl e \<Rightarrow> e = Assertion_failed \<and> \<not> fst after \<and> error \<and> \<not> error_is_set io (snd after)
      | Inr (r, w') \<Rightarrow>
          r = fst after \<and> w' = snd after \<and> (\<not> r \<and> error \<longrightarrow> error_is_set io w'))"

text \<open>
  Modelled from the spec: the scanner constructors \<open>gimp_scanner_new_file\<close>,
  \<open>gimp_scanner_new_gfile\<close>, \<open>gimp_scanner_new_stream\<close> and \<open>gimp_scanner_new_string\<close>
  (gimpscanner.c) are not among the sources. The specification describes the interface
  as simple pass/fail \<open>GError\<close> reporting: a constructor gives a scanner, or it fails and
  sets the error when a location is supplied. \<open>constructor_reports\<close> says so of the
  result of a constructor.
\<close>

definition constructor_reports :: "'w host_io \<Rightarrow> bool \<Rightarrow> GScanner option \<times> 'w \<Rightarrow> bool" where
  "constructor_reports io error r = (fst r = None \<and> error \<longrightarrow> error_is_set io (snd r))"

subsection \<open>A sample configuration\<close>

text \<open>
  A world to run the model on: it counts the calls of the callbacks and holds the error
  cell and the string buffer. The sample \<open>deserialize\<close> callback succeeds for the data
  0, fails with the error set for the data 1 and fails without an error otherwise. In
  the sample type system the type 1 has a name, an aggregated child of the type 2 and a
  property that is not readable; object values are compared by address.
\<close>

record sample_world =
  calls :: nat
  gerror :: bool
  buffer :: string

definition sample_io :: "sample_world host_io" where
  "sample_io =
     \<lparr>error_is_set = gerror,
      gimp_config_writer_new_file =
        (\<lambda>fn atomic header error w. (if fn = ''/nonexistent/rc'' then None else Some 1, w)),
      gimp_config_writer_new_string = (\<lambda>str w. (Some 2, w)),
      gimp_config_writer_finish = (\<lambda>writer footer error w. (True, w)),
      g_string_new = (\<lambda>w. (0, w\<lparr>buffer := []\<rparr>)),
      g_string_free = (\<lambda>str w. (buffer w, w)),
      gimp_scanner_new_file =
        (\<lambda>fn error w. if fn = ''/nonexistent/rc'' then (None, w\<lparr>gerror := error\<rparr>)
                        else (Some 1, w)),
      gimp_scanner_new_gfile = (\<lambda>f error w. (Some 2, w)),
      gimp_scanner_new_stream = (\<lambda>i error w. (Some 3, w)),
      gimp_scanner_new_string = (\<lambda>text len error w. (Some 4, w)),
      gimp_scanner_destroy = (\<lambda>scanner w. w),
      g_object_freeze_notify = (\<lambda>obj w. w),
      g_object_thaw_notify = (\<lambda>obj w. w)\<rparr>"

definition sample_iface :: "sample_world GimpConfigInterface" where
  "sample_iface =
     \<lparr>serialize = (\<lambda>obj writer data w.
                     (False, w\<lparr>calls := calls w + 1, buffer := buffer w @ ''(x 1)''\<rparr>)),
      deserialize = (\<lambda>obj scanner nest_level data w.
                     (data = 0, w\<lparr>calls := calls w + 1, gerror := (data = 1)\<rparr>)),
      equal_impl = Iface_equal\<rparr>"

definition sample_types :: "sample_world type_system" where
  "sample_types =
     \<lparr>list_properties =
        (\<lambda>t. if t = 1 then
                [\<lparr>pspec_name = ''name'', pspec_flags = 1, value_type = 64,
                  is_param_spec_object = False\<rparr>,
                 \<lparr>pspec_name = ''child'', pspec_flags = 513, value_type = 2,
                  is_param_spec_object = True\<rparr>,
                 \<lparr>pspec_name = ''secret'', pspec_flags = 2, value_type = 24,
                  is_param_spec_object = False\<rparr>]
              else if t = 2 then
                [\<lparr>pspec_name = ''x'', pspec_flags = 1, value_type = 24,
                  is_param_spec_object = False\<rparr>]
              else []),
      config_interface = (\<lambda>t. if t = 1 \<or> t = 2 then Some sample_iface else None),
      param_values_cmp =
        (\<lambda>p a b. case (a, b) of
                    (V_object (Some x), V_object (Some y)) \<Rightarrow>
                      (if address x < address y then - 1
                       else if address x > address y then 1 else 0)
                  | _ \<Rightarrow> (if a = b then 0 else 1))\<rparr>"

definition sample_object :: "nat \<Rightarrow> int \<Rightarrow> int \<Rightarrow> gobject" where
  "sample_object addr x secret =
     GObject 1 addr
       [(''name'', V_string ''brush''),
        (''child'', V_object (Some (GObject 2 (addr + 1) [(''x'', V_int x)]))),
        (''secret'', V_int secret)]"

section \<open>Properties of the action search\<close>

subsection \<open>The scanning loops\<close>

lemma scan_tokens_fst: "fst (scan_tokens key ts j) = (\<exists>t\<in>set ts. prefix key t)"
  by (induction ts arbitrary: j) auto

lemma scan_tokens_snd: "snd (scan_tokens key ts j) = j + first_index ts key"
  by (induction ts arbitrary: j) (auto simp: first_index_def)

lemma locate_fst:
  "fst (locate lt la key) = (\<exists>t\<in>set lt \<union> set la. prefix key t)"
  using scan_tokens_fst [of key lt 0] scan_tokens_fst [of key la 0]
  by (auto simp: locate_def split: prod.splits bool.splits)

lemma locate_snd: "snd (locate lt la key) = token_position lt la key"
  using scan_tokens_fst [of key lt 0] scan_tokens_snd [of key lt 0]
    scan_tokens_snd [of key la 0]
  by (auto simp: locate_def token_position_def split: prod.splits bool.splits)

lemma one_matched_fields:
  "matched (one_matched i r st) = (matched st \<and> fst r)"
  "match_start (one_matched i r st) = (match_start st \<and> i = snd r)"
  "match_ordered (one_matched i r st) = (match_ordered st \<and> previous_matched st \<le> int (snd r))"
  "previous_matched (one_matched i r st) = int (snd r)"
  by (auto simp: one_matched_def Let_def)

lemma ordered_loop_matched:
  "matched (ordered_loop lt la ks i st) =
     (matched st \<and> (\<forall>k\<in>set ks. \<exists>t\<in>set lt \<union> set la. prefix k t))"
  by (induction ks arbitrary: i st) (auto simp: one_matched_fields locate_fst)

lemma ordered_loop_start:
  "match_start (ordered_loop lt la ks i st) =
     (match_start st \<and> map (token_position lt la) ks = [i..<i + length ks])"
proof (induction ks arbitrary: i st)
  case Nil
  then show ?case by simp
next
  case (Cons k ks)
  have "[i..<i + length (k # ks)] = i # [Suc i..<Suc i + length ks]"
    by (simp add: upt_rec)
  with Cons show ?case
    by (auto simp: one_matched_fields locate_snd)
qed

lemma ordered_loop_ordered:
  "match_ordered (ordered_loop lt la ks i st) =
     (match_ordered st \<and>
      sorted (previous_matched st # map (\<lambda>k. int (token_position lt la k)) ks))"
proof (induction ks arbitrary: i st)
  case Nil
  then show ?case by simp
next
  case (Cons k ks)
  show ?case
    unfolding ordered_loop.simps Cons.IH one_matched_fields locate_snd
    by (cases ks) auto
qed

subsection \<open>The three blocks of the matcher\<close>

lemma ordered_block_entered:
  assumes "lt \<noteq> []"
  shows "ordered_block ks lt la (False, section) =
     (if \<forall>k\<in>set ks. \<exists>t\<in>set lt \<union> set la. prefix k t
      then (True, set_section section
              (if sorted (map (token_position lt la) ks)
               then (if map (token_position lt la) ks = [0..<length ks] then 1 else 2)
               else 3))
      else (False, section))"
proof -
  let ?st = "ordered_loop lt la ks 0
               \<lparr>matched = True, match_start = True, match_ordered = True,
                previous_matched = - 1\<rparr>"
  have int_sorted: "sorted (map (\<lambda>k. int (token_position lt la k)) ks)
             = sorted (map (token_position lt la) ks)"
    by (induction ks) auto
  have m: "matched ?st = (\<forall>k\<in>set ks. \<exists>t\<in>set lt \<union> set la. prefix k t)"
    by (simp add: ordered_loop_matched)
  have s: "match_start ?st = (map (token_position lt la) ks = [0..<length ks])"
    by (simp add: ordered_loop_start)
  have o: "match_ordered ?st = sorted (map (token_position lt la) ks)"
    by (simp add: ordered_loop_ordered int_sorted)
  show ?thesis
    unfolding ordered_block_def Let_def m s o using assms by auto
qed

lemma tooltip_one_fields:
  "fst (tooltip_one tt ta lt la k st) =
     (fst st \<and> (\<exists>t\<in>set tt \<union> set ta \<union> set lt \<union> set la. prefix k t))"
  "snd (tooltip_one tt ta lt la k st) =
     (snd st \<or> ((\<forall>t\<in>set tt \<union> set ta. \<not> prefix k t) \<and> (\<exists>t\<in>set lt \<union> set la. prefix k t)))"
  by (auto simp: tooltip_one_def scan_tokens_fst)

lemma tooltip_loop_fst:
  "fst (tooltip_loop tt ta lt la ks st) =
     (fst st \<and> (\<forall>k\<in>set ks. \<exists>t\<in>set tt \<union> set ta \<union> set lt \<union> set la. prefix k t))"
  by (induction ks arbitrary: st) (auto simp: tooltip_one_fields)

lemma tooltip_loop_snd:
  "snd (tooltip_loop tt ta lt la ks st) =
     (snd st \<or> (\<exists>k\<in>set ks. (\<forall>t\<in>set tt \<union> set ta. \<not> prefix k t)
                    \<and> (\<exists>t\<in>set lt \<union> set la. prefix k t)))"
  by (induction ks arbitrary: st) (auto simp: tooltip_one_fields)


lemma tooltip_block_entered:
  assumes "action_tooltip action = Some tip"
    and "g_str_tokenize_and_fold h tip = (tt, ta)"
    and "2 < first_key_strlen ks"
  shows "tooltip_block h action ks lt la (False, section) =
     (if tt \<noteq> [] \<and> (\<forall>k\<in>set ks. \<exists>t\<in>set tt \<union> set ta \<union> set lt \<union> set la. prefix k t)
      then (True, set_section section
              (if \<exists>k\<in>set ks. \<forall>t\<in>set tt \<union> set ta. \<not> prefix k t then 5 else 4))
      else (False, section))"
proof -
  let ?st = "tooltip_loop tt ta lt la ks (True, False)"
  have m: "fst ?st = (\<forall>k\<in>set ks. \<exists>t\<in>set tt \<union> set ta \<union> set lt \<union> set la. prefix k t)"
    by (simp add: tooltip_loop_fst)
  have x: "fst ?st \<Longrightarrow> snd ?st = (\<exists>k\<in>set ks. \<forall>t\<in>set tt \<union> set ta. \<not> prefix k t)"
    unfolding m tooltip_loop_snd by simp blast
  show ?thesis
  proof (cases "fst ?st")
    case True
    with x have "snd ?st = (\<exists>k\<in>set ks. \<forall>t\<in>set tt \<union> set ta. \<not> prefix k t)" by simp
    with True m assms show ?thesis
      by (simp add: tooltip_block_def Let_def)
  next
    case False
    with m assms show ?thesis
      by (simp add: tooltip_block_def Let_def)
  qed
qed

lemma tooltip_block_skipped:
  "fst r \<or> first_key_strlen ks \<le> 2 \<or> action_tooltip action = None
     \<Longrightarrow> tooltip_block h action ks lt la r = r"
  by (auto simp: tooltip_block_def)

lemma ordered_block_skipped: "fst r \<or> lt = [] \<Longrightarrow> ordered_block ks lt la r = r"
  by (auto simp: ordered_block_def)

lemma initials_block_unmatched:
  "\<not> fst (initials_block ks lt la section) \<Longrightarrow> initials_block ks lt la section = (False, section)"
  by (auto simp: initials_block_def split: option.splits if_splits)

lemma label_blocks_unmatched:
  assumes "\<not> fst (label_blocks ks lt la section)"
  shows "label_blocks ks lt la section = (False, section)"
proof -
  have i: "\<not> fst (initials_block ks lt la section)"
    using assms ordered_block_skipped [of "initials_block ks lt la section" lt ks la]
    by (auto simp: label_blocks_def)
  then have "initials_block ks lt la section = (False, section)"
    by (rule initials_block_unmatched)
  with assms show ?thesis
    by (auto simp: label_blocks_def ordered_block_def Let_def split: if_splits)
qed

lemma match_keyword_unfold:
  assumes "action_label action = Some l"
    and "g_str_tokenize_and_fold h (gimp_strip_uline h l) = (lt, la)"
    and "fst (g_str_tokenize_and_fold h kw) = ks"
  shows "action_search_match_keyword h action (Some kw) section =
           Inr (tooltip_block h action ks lt la (label_blocks ks lt la section))"
  using assms by (simp add: action_search_match_keyword_def)

subsection \<open>The claims about \<open>action_search_match_keyword\<close>\<close>

text \<open>
  Claim C8. A \<open>NULL\<close> keyword matches every action: the function returns \<open>TRUE\<close>
  whatever the action is (its label and tooltip are never read, so an action without a
  label is accepted too), and a section cell that is supplied receives 0.
\<close>
theorem null_keyword_matches:
  "action_search_match_keyword h action None None = Inr (True, None) \<and>
   action_search_match_keyword h action None (Some v) = Inr (True, Some 0)"
  by (simp add: action_search_match_keyword_def set_section_def)

text \<open>
  Claim C9. When the label of the action yields at least one token and the keyword is
  not \<open>NULL\<close> but yields no token, the function returns \<open>TRUE\<close> and a section cell that
  is supplied receives 1: the loop over the key tokens runs zero times and leaves the
  flags as they were preset.
\<close>
theorem tokenless_keyword_matches:
  assumes "action_label action = Some l"
    and "fst (g_str_tokenize_and_fold h (gimp_strip_uline h l)) \<noteq> []"
    and "fst (g_str_tokenize_and_fold h kw) = []"
  shows "action_search_match_keyword h action (Some kw) None = Inr (True, None) \<and>
         action_search_match_keyword h action (Some kw) (Some v) = Inr (True, Some 1)"
proof -
  obtain lt la where t: "g_str_tokenize_and_fold h (gimp_strip_uline h l) = (lt, la)"
    by (cases "g_str_tokenize_and_fold h (gimp_strip_uline h l)")
  with assms(2) have ne: "lt \<noteq> []" by simp
  have i: "initials_block [] lt la sec = (False, sec)" for sec
    by (simp add: initials_block_def two_letters_def)
  have "label_blocks [] lt la sec = (True, set_section sec 1)" for sec
    using ordered_block_entered [OF ne, of "[]" la sec]
    by (simp add: label_blocks_def i)
  then show ?thesis
    by (simp add: match_keyword_unfold [OF assms(1) t assms(3)] tooltip_block_skipped
        set_section_def)
qed

text \<open>
  Claim C2. When the keyword yields exactly one token, of exactly the two characters
  \<open>c1\<close> and \<open>c2\<close>, and the label tokens (or the label alternates) are at least two and
  the first of them starts with \<open>c1\<close> and the second with \<open>c2\<close>, the function
  returns \<open>TRUE\<close> and a section cell that is supplied receives 1.
\<close>
theorem two_letter_initials:
  assumes "action_label action = Some l"
    and "g_str_tokenize_and_fold h (gimp_strip_uline h l) = (lt, la)"
    and "fst (g_str_tokenize_and_fold h kw) = [[c1, c2]]"
    and "(2 \<le> length lt \<and> prefix [c1] (lt ! 0) \<and> prefix [c2] (lt ! 1)) \<or>
         (2 \<le> length la \<and> prefix [c1] (la ! 0) \<and> prefix [c2] (la ! 1))"
  shows "action_search_match_keyword h action (Some kw) None = Inr (True, None) \<and>
         action_search_match_keyword h action (Some kw) (Some v) = Inr (True, Some 1)"
proof -
  have io: "initials_of ts (Some c1) (Some c2)"
    if "2 \<le> length ts \<and> prefix [c1] (ts ! 0) \<and> prefix [c2] (ts ! 1)" for ts
  proof -
    from that obtain t0 t1 rest where ts: "ts = t0 # t1 # rest"
      by (cases ts; cases "tl ts") auto
    with that show ?thesis
      by (auto simp: initials_of_def g_utf8_get_char_def prefix_def)
  qed
  from assms(4) io have "initials_of lt (Some c1) (Some c2) \<or> initials_of la (Some c1) (Some c2)"
    by blast
  then have "initials_block [[c1, c2]] lt la sec = (True, set_section sec 1)" for sec
    by (simp add: initials_block_def two_letters_def g_utf8_get_char_def)
  then have "label_blocks [[c1, c2]] lt la sec = (True, set_section sec 1)" for sec
    by (simp add: label_blocks_def ordered_block_skipped)
  then show ?thesis
    by (simp add: match_keyword_unfold [OF assms(1,2,3)] tooltip_block_skipped
        set_section_def)
qed


theorem tokenless_keyword_matches_witness:
  "fst (g_str_tokenize_and_fold ascii_host (gimp_strip_uline ascii_host ''_blur gaussian''))
     = [''blur'', ''gaussian''] \<and>
   fst (g_str_tokenize_and_fold ascii_host ''...'') = [] \<and>
   action_search_match_keyword ascii_host
     \<lparr>action_name = ''filters-blur'', action_label = Some ''_blur gaussian'',
      action_tooltip = None\<rparr> (Some ''...'') (Some 7) = Inr (True, Some 1)"
proof -
  let ?a = "\<lparr>action_name = ''filters-blur'', action_label = Some ''_blur gaussian'',
             action_tooltip = None\<rparr>"
  have l: "action_label ?a = Some ''_blur gaussian''" by simp
  have t: "fst (g_str_tokenize_and_fold ascii_host (gimp_strip_uline ascii_host ''_blur gaussian''))
     = [''blur'', ''gaussian'']"
    by (simp add: ascii_host_def is_alnum_def)
  then have ne: "fst (g_str_tokenize_and_fold ascii_host
                    (gimp_strip_uline ascii_host ''_blur gaussian'')) \<noteq> []"
    by simp
  have k: "fst (g_str_tokenize_and_fold ascii_host ''...'') = []"
    by (simp add: ascii_host_def is_alnum_def)
  show ?thesis
    using tokenless_keyword_matches [OF l ne k, of 7] t k by simp
qed

theorem two_letter_initials_witness:
  "g_str_tokenize_and_fold ascii_host (gimp_strip_uline ascii_host ''gaussian _blur...'')
     = ([''gaussian'', ''blur''], []) \<and>
   fst (g_str_tokenize_and_fold ascii_host ''gb'') = [''gb''] \<and>
   action_search_match_keyword ascii_host
     \<lparr>action_name = ''filters-gaussian-blur'', action_label = Some ''gaussian _blur...'',
      action_tooltip = None\<rparr> (Some ''gb'') (Some 7) = Inr (True, Some 1)"
proof -
  let ?a = "\<lparr>action_name = ''filters-gaussian-blur'',
             action_label = Some ''gaussian _blur...'', action_tooltip = None\<rparr>"
  have l: "action_label ?a = Some ''gaussian _blur...''" by simp
  have t: "g_str_tokenize_and_fold ascii_host (gimp_strip_uline ascii_host ''gaussian _blur...'')
     = ([''gaussian'', ''blur''], [])"
    by (simp add: ascii_host_def is_alnum_def)
  have k: "fst (g_str_tokenize_and_fold ascii_host ''gb'') = [[CHR ''g'', CHR ''b'']]"
    by (simp add: ascii_host_def is_alnum_def)
  have i: "(2 \<le> length [''gaussian'', ''blur''] \<and> prefix [CHR ''g''] ([''gaussian'', ''blur''] ! 0)
             \<and> prefix [CHR ''b''] ([''gaussian'', ''blur''] ! 1)) \<or>
           (2 \<le> length ([] :: strv) \<and> prefix [CHR ''g''] ([] ! 0) \<and> prefix [CHR ''b''] ([] ! 1))"
    by simp
  show ?thesis
    using two_letter_initials [OF l t k i, of 7] t k by simp
qed

lemma tooltip_block_unmatched:
  "\<not> fst (tooltip_block h action ks lt la (False, sec))
     \<Longrightarrow> tooltip_block h action ks lt la (False, sec) = (False, sec)"
  by (auto simp: tooltip_block_def Let_def split: option.splits prod.splits if_splits)

text \<open>
  Claim C1, amended. The label yields at least one token and the two-letter initials
  block has not matched. If every key token is a prefix of some label token or label
  alternate, the function returns \<open>TRUE\<close>, and a section cell that is supplied receives
  1 when the positions of the key tokens are \<open>0, 1, 2, ...\<close>, 2 when they are
  nondecreasing but not that, and 3 when they are not nondecreasing; the position of a
  key token is \<open>token_position\<close>. If some key token is a prefix of no label token and of
  no label alternate, and the tooltip block does not match either, the function returns
  \<open>FALSE\<close> and leaves the section cell as it was.
\<close>
theorem ordered_prefix_sections:
  assumes "action_label action = Some l"
    and "g_str_tokenize_and_fold h (gimp_strip_uline h l) = (lt, la)"
    and "fst (g_str_tokenize_and_fold h kw) = ks"
    and "lt \<noteq> []"
    and "\<not> fst (initials_block ks lt la section)"
  shows "((\<forall>k\<in>set ks. \<exists>t\<in>set lt \<union> set la. prefix k t) \<longrightarrow>
            action_search_match_keyword h action (Some kw) section =
              Inr (True, set_section section
                     (if sorted (map (token_position lt la) ks)
                      then (if map (token_position lt la) ks = [0..<length ks] then 1 else 2)
                      else 3))) \<and>
         ((\<exists>k\<in>set ks. \<forall>t\<in>set lt \<union> set la. \<not> prefix k t) \<and>
          \<not> fst (tooltip_block h action ks lt la (False, section)) \<longrightarrow>
            action_search_match_keyword h action (Some kw) section = Inr (False, section))"
proof -
  have i: "initials_block ks lt la section = (False, section)"
    using assms(5) by (rule initials_block_unmatched)
  have u: "action_search_match_keyword h action (Some kw) section =
             Inr (tooltip_block h action ks lt la (ordered_block ks lt la (False, section)))"
    by (simp add: match_keyword_unfold [OF assms(1,2,3)] label_blocks_def i)
  show ?thesis
  proof (cases "\<forall>k\<in>set ks. \<exists>t\<in>set lt \<union> set la. prefix k t")
    case True
    then show ?thesis
      unfolding u ordered_block_entered [OF assms(4)]
      by (simp add: tooltip_block_skipped)
  next
    case False
    then have "ordered_block ks lt la (False, section) = (False, section)"
      unfolding ordered_block_entered [OF assms(4)] by simp
    with False show ?thesis
      unfolding u by (auto dest: tooltip_block_unmatched)
  qed
qed

text \<open>
  Claim C1 as stated fails where the initials block matches: the key \<open>gb\<close> is a prefix
  of no token of \<open>gaussian blur\<close> and the action has no tooltip, yet the function returns
  \<open>TRUE\<close> with section 1.
\<close>
theorem ordered_prefix_counterexample:
  "g_str_tokenize_and_fold ascii_host (gimp_strip_uline ascii_host ''gaussian blur'')
     = ([''gaussian'', ''blur''], []) \<and>
   fst (g_str_tokenize_and_fold ascii_host ''gb'') = [''gb''] \<and>
   \<not> prefix ''gb'' ''gaussian'' \<and> \<not> prefix ''gb'' ''blur'' \<and>
   action_search_match_keyword ascii_host
     \<lparr>action_name = ''filters-gaussian-blur'', action_label = Some ''gaussian blur'',
      action_tooltip = None\<rparr> (Some ''gb'') (Some 7) = Inr (True, Some 1)"
  by (simp add: ascii_host_def is_alnum_def action_search_match_keyword_def label_blocks_def
      initials_block_def two_letters_def initials_of_def g_utf8_get_char_def set_section_def
      ordered_block_def tooltip_block_def)

theorem ordered_prefix_sections_witness:
  "g_str_tokenize_and_fold ascii_host (gimp_strip_uline ascii_host ''blur gaussian'')
     = ([''blur'', ''gaussian''], []) \<and>
   fst (g_str_tokenize_and_fold ascii_host ''ga bl'') = [''ga'', ''bl''] \<and>
   map (token_position [''blur'', ''gaussian''] []) [''ga'', ''bl''] = [1, 0] \<and>
   action_search_match_keyword ascii_host
     \<lparr>action_name = ''filters-blur'', action_label = Some ''blur gaussian'',
      action_tooltip = None\<rparr> (Some ''ga bl'') (Some 7) = Inr (True, Some 3) \<and>
   fst (g_str_tokenize_and_fold ascii_host ''ga x'') = [''ga'', ''x''] \<and>
   action_search_match_keyword ascii_host
     \<lparr>action_name = ''filters-blur'', action_label = Some ''blur gaussian'',
      action_tooltip = None\<rparr> (Some ''ga x'') (Some 7) = Inr (False, Some 7)"
proof -
  let ?a = "\<lparr>action_name = ''filters-blur'', action_label = Some ''blur gaussian'',
             action_tooltip = None\<rparr>"
  let ?lt = "[''blur'', ''gaussian'']"
  have l: "action_label ?a = Some ''blur gaussian''" by simp
  have t: "g_str_tokenize_and_fold ascii_host (gimp_strip_uline ascii_host ''blur gaussian'')
     = (?lt, [])"
    by (simp add: ascii_host_def is_alnum_def)
  have k1: "fst (g_str_tokenize_and_fold ascii_host ''ga bl'') = [''ga'', ''bl'']"
    by (simp add: ascii_host_def is_alnum_def)
  have k2: "fst (g_str_tokenize_and_fold ascii_host ''ga x'') = [''ga'', ''x'']"
    by (simp add: ascii_host_def is_alnum_def)
  have ne: "?lt \<noteq> []" by simp
  have i1: "\<not> fst (initials_block [''ga'', ''bl''] ?lt [] (Some 7))"
    by (simp add: initials_block_def two_letters_def)
  have i2: "\<not> fst (initials_block [''ga'', ''x''] ?lt [] (Some 7))"
    by (simp add: initials_block_def two_letters_def)
  have p: "map (token_position ?lt []) [''ga'', ''bl''] = [1, 0]"
    by (simp add: token_position_def first_index_def)
  have tb: "\<not> fst (tooltip_block ascii_host ?a [''ga'', ''x''] ?lt [] (False, Some 7))"
    by (simp add: tooltip_block_def)
  show ?thesis
    using ordered_prefix_sections [OF l t k1 ne i1] ordered_prefix_sections [OF l t k2 ne i2]
      t k1 k2 p tb
    by (simp add: set_section_def)
qed

text \<open>
  The tooltip block for an action that has a label: the statement of claim C3 holds
  there. The two label blocks have not matched. When the first key token is longer than
  two characters, the function returns \<open>TRUE\<close> exactly when the tooltip yields at least
  one token and every key token is a prefix of some tooltip token, tooltip alternate,
  label token or label alternate; the section is then 5 when some key token is a prefix
  of no tooltip token and of no tooltip alternate, and 4 otherwise. When the first key
  token has two characters or fewer, the function returns \<open>FALSE\<close>.
\<close>

lemma tooltip_fallback_labelled:
  assumes "action_label action = Some l"
    and "g_str_tokenize_and_fold h (gimp_strip_uline h l) = (lt, la)"
    and "fst (g_str_tokenize_and_fold h kw) = ks"
    and "action_tooltip action = Some tip"
    and "g_str_tokenize_and_fold h tip = (tt, ta)"
    and "\<not> fst (label_blocks ks lt la section)"
  shows "(2 < first_key_strlen ks \<longrightarrow>
            action_search_match_keyword h action (Some kw) section =
              Inr (if tt \<noteq> [] \<and>
                      (\<forall>k\<in>set ks. \<exists>t\<in>set tt \<union> set ta \<union> set lt \<union> set la. prefix k t)
                   then (True, set_section section
                           (if \<exists>k\<in>set ks. \<forall>t\<in>set tt \<union> set ta. \<not> prefix k t
                            then 5 else 4))
                   else (False, section))) \<and>
         (first_key_strlen ks \<le> 2 \<longrightarrow>
            action_search_match_keyword h action (Some kw) section = Inr (False, section))"
proof -
  have u: "action_search_match_keyword h action (Some kw) section =
             Inr (tooltip_block h action ks lt la (False, section))"
    by (simp add: match_keyword_unfold [OF assms(1,2,3)] label_blocks_unmatched [OF assms(6)])
  show ?thesis
    unfolding u
    by (auto simp: tooltip_block_entered [OF assms(4,5)] tooltip_block_skipped)
qed

text \<open>The tooltip block for an action without a label.\<close>

lemma tooltip_loop_null_eq:
  "tooltip_loop_null tt ta ks =
     (if \<forall>k\<in>set ks. \<exists>t\<in>set tt \<union> set ta. prefix k t then Inr (True, False)
      else Inl Null_dereference)"
  by (induction ks) (auto simp: scan_tokens_fst)

lemma tooltip_fallback_unlabelled:
  assumes "action_label action = None"
    and "fst (g_str_tokenize_and_fold h kw) = ks"
    and "action_tooltip action = Some tip"
    and "g_str_tokenize_and_fold h tip = (tt, ta)"
  shows "action_search_match_keyword h action (Some kw) section =
     (if 2 < first_key_strlen ks \<and> tt \<noteq> [] then
        (if \<forall>k\<in>set ks. \<exists>t\<in>set tt \<union> set ta. prefix k t
         then Inr (True, set_section section 4)
         else Inl Null_dereference)
      else Inr (False, section))"
  using assms
  by (auto simp: action_search_match_keyword_def tooltip_block_null_def tooltip_loop_null_eq)

lemma unlabelled_without_tooltip:
  assumes "action_label action = None" and "action_tooltip action = None"
  shows "action_search_match_keyword h action (Some kw) section = Inr (False, section)"
  using assms by (simp add: action_search_match_keyword_def tooltip_block_null_def Let_def)

text \<open>
  Claim C3, at an action without a label. The claim is about every action with a
  tooltip: when the label blocks have not matched and the first key token is longer
  than two characters, the function returns \<open>TRUE\<close> exactly when every key token is a
  prefix of some tooltip or label token, and so \<open>FALSE\<close> otherwise. The action below has
  the tooltip \<open>apply a soft blur\<close> and no label. For the key \<open>soft app\<close> the function
  returns \<open>TRUE\<close> with section 4, as claimed. For the key \<open>soft zzz\<close> the token \<open>zzz\<close> is
  a prefix of no tooltip token, and the function does not return \<open>FALSE\<close>: it reads
  \<open>label_tokens[0]\<close> through the \<open>NULL\<close> pointer.
\<close>
theorem tooltip_fallback_null_label:
  "g_str_tokenize_and_fold ascii_host ''apply a soft blur''
     = ([''apply'', ''a'', ''soft'', ''blur''], []) \<and>
   fst (g_str_tokenize_and_fold ascii_host ''soft app'') = [''soft'', ''app''] \<and>
   action_search_match_keyword ascii_host
     \<lparr>action_name = ''plug-in-recent-01'', action_label = None,
      action_tooltip = Some ''apply a soft blur''\<rparr> (Some ''soft app'') (Some 7)
     = Inr (True, Some 4) \<and>
   fst (g_str_tokenize_and_fold ascii_host ''soft zzz'') = [''soft'', ''zzz''] \<and>
   action_search_match_keyword ascii_host
     \<lparr>action_name = ''plug-in-recent-01'', action_label = None,
      action_tooltip = Some ''apply a soft blur''\<rparr> (Some ''soft zzz'') (Some 7)
     = Inl Null_dereference"
proof -
  let ?a = "\<lparr>action_name = ''plug-in-recent-01'', action_label = None,
             action_tooltip = Some ''apply a soft blur''\<rparr>"
  have l: "action_label ?a = None" by simp
  have tp: "action_tooltip ?a = Some ''apply a soft blur''" by simp
  have tt: "g_str_tokenize_and_fold ascii_host ''apply a soft blur''
     = ([''apply'', ''a'', ''soft'', ''blur''], [])"
    by (simp add: ascii_host_def is_alnum_def)
  have k1: "fst (g_str_tokenize_and_fold ascii_host ''soft app'') = [''soft'', ''app'']"
    by (simp add: ascii_host_def is_alnum_def)
  have k2: "fst (g_str_tokenize_and_fold ascii_host ''soft zzz'') = [''soft'', ''zzz'']"
    by (simp add: ascii_host_def is_alnum_def)
  show ?thesis
    using tooltip_fallback_unlabelled [OF l k1 tp tt, of "Some 7"]
      tooltip_fallback_unlabelled [OF l k2 tp tt, of "Some 7"] tt k1 k2
    by (simp add: first_key_strlen_def set_section_def)
qed


subsection \<open>The results list\<close>

lemma list_store_insert_eq:
  "list_store_insert s new rs =
     takeWhile (\<lambda>r. column_section r \<le> s) rs @ new # dropWhile (\<lambda>r. column_section r \<le> s) rs"
  by (induction rs) auto

lemma sorted_takeWhile_filter:
  "sorted (map column_section rs) \<Longrightarrow>
     takeWhile (\<lambda>r. column_section r \<le> s) rs = filter (\<lambda>r. column_section r \<le> s) rs"
proof (induction rs)
  case Nil
  then show ?case by simp
next
  case (Cons r rs)
  show ?case
  proof (cases "column_section r \<le> s")
    case True
    with Cons show ?thesis by simp
  next
    case False
    with Cons.prems have "\<forall>x\<in>set (r # rs). \<not> column_section x \<le> s" by auto
    then have "filter (\<lambda>r. column_section r \<le> s) (r # rs) = []"
      by (simp only: filter_empty_conv) 
    with False show ?thesis by simp
  qed
qed

lemma sorted_dropWhile_filter:
  "sorted (map column_section rs) \<Longrightarrow>
     dropWhile (\<lambda>r. column_section r \<le> s) rs = filter (\<lambda>r. s < column_section r) rs"
proof (induction rs)
  case Nil
  then show ?case by simp
next
  case (Cons r rs)
  show ?case
  proof (cases "column_section r \<le> s")
    case True
    with Cons show ?thesis by simp
  next
    case False
    with Cons.prems have "\<forall>x\<in>set (r # rs). s < column_section x" by auto
    then have "filter (\<lambda>r. s < column_section r) (r # rs) = r # rs"
      by (simp only: filter_id_conv)
    with False show ?thesis by simp
  qed
qed

lemma list_store_insert_sorted:
  "sorted (map column_section rs) \<Longrightarrow>
     sorted (map column_section (list_store_insert s \<lparr>column_action = a, column_section = s\<rparr> rs))"
proof (induction rs)
  case Nil
  then show ?case by simp
next
  case (Cons r rs)
  show ?case
  proof (cases "s < column_section r")
    case True
    with Cons.prems show ?thesis by auto
  next
    case False
    have "set (list_store_insert s new rs) = insert new (set rs)" for new
      by (induction rs) auto
    with False Cons show ?thesis by auto
  qed
qed

lemma list_store_insert_after:
  "\<forall>r\<in>set pre. column_section r \<le> s \<Longrightarrow>
     list_store_insert s new (pre @ rest) = pre @ list_store_insert s new rest"
  by (induction pre) auto

lemma add_to_results_list_cases:
  "action_search_add_to_results_list h a s store =
     (if has_label h a then list_store_insert s \<lparr>column_action = a, column_section = s\<rparr> store
      else store)"
  by (auto simp: action_search_add_to_results_list_def has_label_def Let_def split: option.splits)

lemma add_to_results_list_after:
  assumes "\<forall>r\<in>set pre. column_section r \<le> s"
  shows "\<exists>rest'. action_search_add_to_results_list h a s (pre @ rest) = pre @ rest'"
  by (simp add: add_to_results_list_cases list_store_insert_after [OF assms])

lemma history_loop_appends:
  "\<forall>r\<in>set store. column_section r \<le> 0 \<Longrightarrow>
     history_loop h as store = store @ history_rows h as"
proof (induction as arbitrary: store)
  case Nil
  then show ?case by (simp add: history_rows_def)
next
  case (Cons a as)
  show ?case
  proof (cases "has_label h a")
    case True
    let ?new = "\<lparr>column_action = a, column_section = 0\<rparr>"
    have ins: "action_search_add_to_results_list h a 0 store = store @ [?new]"
      using True list_store_insert_after [OF Cons.prems, of ?new "[]"]
      by (simp add: add_to_results_list_cases)
    have "\<forall>r\<in>set (store @ [?new]). column_section r \<le> 0"
      using Cons.prems by simp
    from Cons.IH [OF this] ins True show ?thesis
      by (simp add: history_rows_def)
  next
    case False
    with Cons show ?thesis
      by (simp add: add_to_results_list_cases history_rows_def)
  qed
qed

lemma initials_block_range: "cell_in_range (initials_block ks lt la (Some s0))"
  by (auto simp: cell_in_range_def initials_block_def set_section_def split: option.splits)

lemma ordered_block_range: "cell_in_range r \<Longrightarrow> cell_in_range (ordered_block ks lt la r)"
  by (auto simp: cell_in_range_def ordered_block_def Let_def set_section_def)

lemma tooltip_block_range: "cell_in_range r \<Longrightarrow> cell_in_range (tooltip_block h a ks lt la r)"
  by (auto simp: cell_in_range_def tooltip_block_def Let_def set_section_def
      split: option.splits prod.splits)

lemma tooltip_block_null_range:
  "tooltip_block_null h a ks (Some s0) = Inr (True, cell) \<Longrightarrow> cell = Some 4"
  by (auto simp: tooltip_block_null_def tooltip_loop_null_eq set_section_def
      split: option.splits prod.splits if_splits)

lemma match_keyword_section_range:
  assumes "action_search_match_keyword h a keyword (Some s0) = Inr (True, cell)"
  shows "\<exists>v. cell = Some v \<and> 0 \<le> v \<and> v \<le> 5"
proof (cases keyword)
  case None
  with assms show ?thesis
    by (auto simp: action_search_match_keyword_def set_section_def)
next
  case (Some kw)
  show ?thesis
  proof (cases "action_label a")
    case None
    with assms Some have "cell = Some 4"
      by (auto simp: action_search_match_keyword_def Let_def dest: tooltip_block_null_range)
    then show ?thesis by simp
  next
    case (Some label)
    with assms \<open>keyword = Some kw\<close> obtain ks lt la where
      "tooltip_block h a ks lt la (label_blocks ks lt la (Some s0)) = (True, cell)"
      by (auto simp: action_search_match_keyword_def Let_def split: prod.splits)
    moreover have "cell_in_range (tooltip_block h a ks lt la (label_blocks ks lt la (Some s0)))"
      unfolding label_blocks_def
      by (intro tooltip_block_range ordered_block_range initials_block_range)
    ultimately have "cell_in_range (True, cell)" by simp
    then show ?thesis by (simp add: cell_in_range_def)
  qed
qed

text \<open>
  The matcher returns for every action that has a label or has no tooltip, and then so
  does the loop over the action groups.
\<close>

lemma match_keyword_returns:
  assumes "action_label a \<noteq> None \<or> action_tooltip a = None"
  shows "\<exists>r. action_search_match_keyword h a keyword cell = Inr r"
  using assms
  by (cases keyword)
    (auto simp: action_search_match_keyword_def tooltip_block_null_def Let_def
      split: option.splits prod.splits)

lemma consider_action_returns:
  assumes "action_label a \<noteq> None \<or> action_tooltip a = None"
  shows "\<exists>store'. consider_action h e keyword s0 hist a store = Inr store'"
proof -
  from match_keyword_returns [OF assms] obtain r where
    "action_search_match_keyword h a keyword (Some s0) = Inr r" by blast
  then show ?thesis
    by (cases r) (simp add: consider_action_def Let_def)
qed

lemma group_loop_returns:
  assumes "\<forall>a\<in>set as. action_label a \<noteq> None \<or> action_tooltip a = None"
  shows "\<exists>store'. group_loop h e keyword s0 hist as store = Inr store'"
  using assms
proof (induction as arbitrary: store)
  case Nil
  then show ?case by simp
next
  case (Cons a as)
  then have "action_label a \<noteq> None \<or> action_tooltip a = None" by simp
  from consider_action_returns [OF this] obtain mid where
    "consider_action h e keyword s0 hist a store = Inr mid" by blast
  with Cons show ?case by simp
qed

lemma groups_loop_returns:
  assumes "\<forall>g\<in>set gs. \<forall>a\<in>set g. action_label a \<noteq> None \<or> action_tooltip a = None"
  shows "\<exists>store'. groups_loop h e keyword s0 hist gs store = Inr store'"
  using assms
proof (induction gs arbitrary: store)
  case Nil
  then show ?case by simp
next
  case (Cons g gs)
  then have "\<forall>a\<in>set g. action_label a \<noteq> None \<or> action_tooltip a = None" by simp
  from group_loop_returns [OF this] obtain mid where
    "group_loop h e keyword s0 hist g store = Inr mid" by blast
  with Cons show ?case by simp
qed

lemma history_and_actions_returns:
  assumes "\<forall>g\<in>set (action_groups e). \<forall>a\<in>set g.
             action_label a \<noteq> None \<or> action_tooltip a = None"
  shows "\<exists>rows. action_search_history_and_actions h e keyword s0 store = Inr rows"
  using groups_loop_returns [OF assms]
  by (simp add: action_search_history_and_actions_def Let_def)

lemma consider_action_keeps_history:
  assumes "consider_action h e keyword s0 hist a (pre @ rest) = Inr store'"
    and "\<forall>r\<in>set pre. column_section r \<le> 0"
  shows "\<exists>rest'. store' = pre @ rest'"
proof -
  have add: "\<exists>rest'. action_search_add_to_results_list h a v (pre @ rest) = pre @ rest'"
    if "0 \<le> v" for v
  proof -
    from assms(2) that have "\<forall>r\<in>set pre. column_section r \<le> v" by auto
    then show ?thesis by (rule add_to_results_list_after)
  qed
  show ?thesis
  proof (cases "action_search_match_keyword h a keyword (Some s0)")
    case (Inl err)
    with assms(1) show ?thesis
      by (auto simp: consider_action_def Let_def split: if_splits)
  next
    case (Inr r)
    obtain m cell where r: "r = (m, cell)" by (cases r)
    show ?thesis
    proof (cases m)
      case True
      with Inr r have "action_search_match_keyword h a keyword (Some s0) = Inr (True, cell)"
        by simp
      from match_keyword_section_range [OF this] obtain v where "cell = Some v" "0 \<le> v"
        by blast
      from add [OF \<open>0 \<le> v\<close>] obtain rest1 where
        "action_search_add_to_results_list h a v (pre @ rest) = pre @ rest1" ..
      moreover have "store' = pre @ rest \<or>
                     store' = action_search_add_to_results_list h a v (pre @ rest)"
        using assms(1) Inr r True \<open>cell = Some v\<close>
        by (auto simp: consider_action_def Let_def split: if_splits)
      ultimately show ?thesis by auto
    next
      case False
      with assms(1) Inr r show ?thesis
        by (auto simp: consider_action_def Let_def split: if_splits)
    qed
  qed
qed

lemma group_loop_keeps_history:
  assumes "group_loop h e keyword s0 hist as (pre @ rest) = Inr store'"
    and "\<forall>r\<in>set pre. column_section r \<le> 0"
  shows "\<exists>rest'. store' = pre @ rest'"
  using assms(1)
proof (induction as arbitrary: rest)
  case Nil
  then show ?case by auto
next
  case (Cons a as)
  then obtain mid where c: "consider_action h e keyword s0 hist a (pre @ rest) = Inr mid"
    and g: "group_loop h e keyword s0 hist as mid = Inr store'"
    by (auto split: sum.splits)
  from consider_action_keeps_history [OF c assms(2)] obtain rest1 where "mid = pre @ rest1" ..
  with g Cons.IH show ?case by blast
qed

lemma groups_loop_keeps_history:
  assumes "groups_loop h e keyword s0 hist gs (pre @ rest) = Inr store'"
    and "\<forall>r\<in>set pre. column_section r \<le> 0"
  shows "\<exists>rest'. store' = pre @ rest'"
  using assms(1)
proof (induction gs arbitrary: rest)
  case Nil
  then show ?case by auto
next
  case (Cons g gs)
  then obtain mid where c: "group_loop h e keyword s0 hist g (pre @ rest) = Inr mid"
    and r: "groups_loop h e keyword s0 hist gs mid = Inr store'"
    by (auto split: sum.splits)
  from group_loop_keeps_history [OF c assms(2)] obtain rest1 where "mid = pre @ rest1" ..
  with r Cons.IH show ?case by blast
qed

lemma history_stays_on_top:
  assumes "action_search_history_and_actions h e keyword s0 [] = Inr rows"
    and "keyword \<noteq> Some []"
  shows "take (length (history_rows h (history_search e keyword))) rows
           = history_rows h (history_search e keyword)"
proof -
  let ?H = "history_rows h (history_search e keyword)"
  have hl: "history_loop h (history_search e keyword) [] = ?H @ []"
    using history_loop_appends [of "[]" h] by simp
  have z: "\<forall>r\<in>set ?H. column_section r \<le> 0"
    by (simp add: history_rows_def)
  from assms have "groups_loop h e keyword s0 (history_search e keyword) (action_groups e)
                     (?H @ []) = Inr rows"
    by (simp add: action_search_history_and_actions_def Let_def hl)
  from groups_loop_keeps_history [OF this z] show ?thesis by auto
qed

text \<open>
  Claim C4. \<open>action_search_add_to_results_list\<close> leaves the store alone for an action
  whose stripped label is \<open>NULL\<close> or empty; otherwise it puts the new row immediately
  before the first row whose section is strictly greater than the new row's section,
  and at the end when there is none. When the sections of the store are nondecreasing
  from top to bottom, they are so afterwards, and the new row stands after every row of
  a smaller or equal section and before every row of a greater one, the old rows in
  their old order. \<open>action_search_history_and_actions\<close> returns a list whenever every
  action of the groups has a label or has no tooltip; and whenever it returns on the
  cleared store with a keyword other than the empty string, the rows of the history
  actions are the top rows of the result, in the order of the history.
\<close>
theorem results_list_ranking:
  "action_search_add_to_results_list h a s store =
     (if has_label h a
      then takeWhile (\<lambda>r. column_section r \<le> s) store
             @ \<lparr>column_action = a, column_section = s\<rparr>
             # dropWhile (\<lambda>r. column_section r \<le> s) store
      else store) \<and>
   (sorted (map column_section store) \<longrightarrow>
      sorted (map column_section (action_search_add_to_results_list h a s store)) \<and>
      (has_label h a \<longrightarrow>
         action_search_add_to_results_list h a s store =
           filter (\<lambda>r. column_section r \<le> s) store
             @ \<lparr>column_action = a, column_section = s\<rparr>
             # filter (\<lambda>r. s < column_section r) store)) \<and>
   ((\<forall>g\<in>set (action_groups e). \<forall>x\<in>set g. action_label x \<noteq> None \<or> action_tooltip x = None)
      \<longrightarrow> (\<exists>result. action_search_history_and_actions h e keyword s0 [] = Inr result)) \<and>
   (keyword \<noteq> Some [] \<and> action_search_history_and_actions h e keyword s0 [] = Inr rows \<longrightarrow>
      take (length (history_rows h (history_search e keyword))) rows
        = history_rows h (history_search e keyword))"
proof (intro conjI impI)
  show p: "action_search_add_to_results_list h a s store =
     (if has_label h a
      then takeWhile (\<lambda>r. column_section r \<le> s) store
             @ \<lparr>column_action = a, column_section = s\<rparr>
             # dropWhile (\<lambda>r. column_section r \<le> s) store
      else store)"
    by (simp add: add_to_results_list_cases list_store_insert_eq)
  {
    assume srt: "sorted (map column_section store)"
    then show "sorted (map column_section (action_search_add_to_results_list h a s store))"
      by (simp add: add_to_results_list_cases list_store_insert_sorted)
    assume "has_label h a"
    then show "action_search_add_to_results_list h a s store =
           filter (\<lambda>r. column_section r \<le> s) store
             @ \<lparr>column_action = a, column_section = s\<rparr>
             # filter (\<lambda>r. s < column_section r) store"
      by (simp add: p sorted_takeWhile_filter [OF srt] sorted_dropWhile_filter [OF srt])
  }
  {
    assume "\<forall>g\<in>set (action_groups e). \<forall>x\<in>set g.
              action_label x \<noteq> None \<or> action_tooltip x = None"
    then show "\<exists>result. action_search_history_and_actions h e keyword s0 [] = Inr result"
      by (rule history_and_actions_returns)
  }
  assume "keyword \<noteq> Some [] \<and> action_search_history_and_actions h e keyword s0 [] = Inr rows"
  then show "take (length (history_rows h (history_search e keyword))) rows
        = history_rows h (history_search e keyword)"
    using history_stays_on_top by blast
qed

theorem results_list_ranking_witness:
  "action_search_add_to_results_list ascii_host gaussian_action 1
     [\<lparr>column_action = blur_action, column_section = 0\<rparr>,
      \<lparr>column_action = blur_action, column_section = 1\<rparr>,
      \<lparr>column_action = blur_action, column_section = 3\<rparr>]
   = [\<lparr>column_action = blur_action, column_section = 0\<rparr>,
      \<lparr>column_action = blur_action, column_section = 1\<rparr>,
      \<lparr>column_action = gaussian_action, column_section = 1\<rparr>,
      \<lparr>column_action = blur_action, column_section = 3\<rparr>] \<and>
   action_groups sample_env = [[blur_action, gaussian_action, unlabelled_action]] \<and>
   action_label unlabelled_action = None \<and>
   action_search_history_and_actions ascii_host sample_env (Some ''blur'') 7 []
   = Inr [\<lparr>column_action = blur_action, column_section = 0\<rparr>,
          \<lparr>column_action = gaussian_action, column_section = 2\<rparr>] \<and>
   history_rows ascii_host (history_search sample_env (Some ''blur''))
   = [\<lparr>column_action = blur_action, column_section = 0\<rparr>]"
proof -
  let ?store = "[\<lparr>column_action = blur_action, column_section = 0\<rparr>,
      \<lparr>column_action = blur_action, column_section = 1\<rparr>,
      \<lparr>column_action = blur_action, column_section = 3\<rparr>]"
  let ?rows = "[\<lparr>column_action = blur_action, column_section = 0\<rparr>,
          \<lparr>column_action = gaussian_action, column_section = 2\<rparr>]"
  have l: "has_label ascii_host gaussian_action" "has_label ascii_host blur_action"
    by (simp_all add: has_label_def gaussian_action_def blur_action_def ascii_host_def)
  have srt: "sorted (map column_section ?store)" by simp
  have k: "Some ''blur'' \<noteq> Some []" by simp
  have g: "action_groups sample_env = [[blur_action, gaussian_action, unlabelled_action]]"
    by (simp add: sample_env_def)
  have u: "action_label unlabelled_action = None" "action_tooltip unlabelled_action = None"
    by (simp_all add: unlabelled_action_def)
  have lab: "\<forall>g\<in>set (action_groups sample_env). \<forall>x\<in>set g.
               action_label x \<noteq> None \<or> action_tooltip x = None"
    by (simp add: g u) (simp add: blur_action_def gaussian_action_def)
  have m: "action_search_match_keyword ascii_host gaussian_action (Some ''blur'') (Some 7)
             = Inr (True, Some 2)"
    by (simp add: gaussian_action_def ascii_host_def is_alnum_def
        action_search_match_keyword_def label_blocks_def initials_block_def two_letters_def
        ordered_block_def one_matched_def locate_def tooltip_block_def set_section_def)
  have m1: "action_search_match_keyword ascii_host blur_action (Some ''blur'') (Some 7)
             = Inr (True, Some 1)"
    by (simp add: blur_action_def ascii_host_def is_alnum_def
        action_search_match_keyword_def label_blocks_def initials_block_def two_letters_def
        ordered_block_def one_matched_def locate_def tooltip_block_def set_section_def)
  have m2: "action_search_match_keyword ascii_host unlabelled_action (Some ''blur'') (Some 7)
             = Inr (False, Some 7)"
    using u by (rule unlabelled_without_tooltip)
  have hr: "history_rows ascii_host (history_search sample_env (Some ''blur''))
              = [\<lparr>column_action = blur_action, column_section = 0\<rparr>]"
    using l by (simp add: history_rows_def sample_env_def)
  have ne: "action_name gaussian_action \<noteq> action_name blur_action"
    by (simp add: gaussian_action_def blur_action_def)
  have run: "action_search_history_and_actions ascii_host sample_env (Some ''blur'') 7 []
               = Inr ?rows"
    unfolding action_search_history_and_actions_def
    using l m m1 m2 ne
    by (simp add: sample_env_def consider_action_def add_to_results_list_cases Let_def)
  show ?thesis
    using results_list_ranking [of ascii_host gaussian_action 1 ?store sample_env
        "Some ''blur''" 7 ?rows] l srt k run hr lab g u
    by simp
qed

section \<open>Properties of the configuration interface\<close>

text \<open>
  Claim C7. For a valid \<open>GimpConfig\<close>, \<open>gimp_config_serialize\<close> is the \<open>serialize\<close>
  callback of its interface on the same arguments (result and effect), and
  \<open>gimp_config_deserialize\<close> is the \<open>deserialize\<close> callback on the same arguments; for
  an invalid one both return \<open>FALSE\<close> and leave the world as it is.
\<close>
theorem thin_dispatch:
  "(get_interface ts config = Some (obj, iface) \<longrightarrow>
      gimp_config_serialize ts config writer data w = serialize iface obj writer data w \<and>
      gimp_config_deserialize ts config scanner nest_level data w
        = deserialize iface obj scanner nest_level data w) \<and>
   (\<not> GIMP_IS_CONFIG ts config \<longrightarrow>
      gimp_config_serialize ts config writer data w = (False, w) \<and>
      gimp_config_deserialize ts config scanner nest_level data w = (False, w))"
  by (cases "get_interface ts config")
    (simp_all add: gimp_config_serialize_def gimp_config_deserialize_def GIMP_IS_CONFIG_def)

lemma sample_interface:
  "get_interface sample_types (Some (sample_object addr x secret))
     = Some (sample_object addr x secret, sample_iface)"
  by (simp add: get_interface_def sample_types_def sample_object_def)

theorem thin_dispatch_witness:
  "GIMP_IS_CONFIG sample_types (Some (sample_object 10 5 1)) \<and>
   gimp_config_serialize sample_types (Some (sample_object 10 5 1)) (Some 1) 0
     \<lparr>calls = 0, gerror = False, buffer = []\<rparr>
     = (False, \<lparr>calls = 1, gerror = False, buffer = ''(x 1)''\<rparr>) \<and>
   gimp_config_deserialize sample_types (Some (sample_object 10 5 1)) (Some 1) 0 0
     \<lparr>calls = 0, gerror = False, buffer = []\<rparr>
     = (True, \<lparr>calls = 1, gerror = False, buffer = []\<rparr>) \<and>
   \<not> GIMP_IS_CONFIG sample_types None \<and>
   gimp_config_serialize sample_types None (Some 1) 0
     \<lparr>calls = 0, gerror = False, buffer = []\<rparr>
     = (False, \<lparr>calls = 0, gerror = False, buffer = []\<rparr>) \<and>
   gimp_config_deserialize sample_types None (Some 1) 0 0
     \<lparr>calls = 0, gerror = False, buffer = []\<rparr>
     = (False, \<lparr>calls = 0, gerror = False, buffer = []\<rparr>)"
proof -
  let ?w = "\<lparr>calls = 0, gerror = False, buffer = []\<rparr>"
  have v: "GIMP_IS_CONFIG sample_types (Some (sample_object 10 5 1))"
    by (simp add: GIMP_IS_CONFIG_def sample_interface)
  have n: "\<not> GIMP_IS_CONFIG sample_types None"
    by (simp add: GIMP_IS_CONFIG_def get_interface_def)
  show ?thesis
    using thin_dispatch [of sample_types "Some (sample_object 10 5 1)" "sample_object 10 5 1"
        sample_iface "Some 1" 0 ?w "Some 1" 0]
      thin_dispatch [of sample_types None "sample_object 10 5 1" sample_iface "Some 1" 0 ?w
        "Some 1" 0] v n sample_interface [of 10 5 1]
    by (simp add: sample_iface_def)
qed

lemma deserialize_with_reports:
  "reports_callback io error (after_callback io obj iface scanner data w)
     (deserialize_with io obj iface scanner data error w)"
  by (auto simp: reports_callback_def after_callback_def deserialize_with_def Let_def
      split: prod.splits)

lemma reports_callback_returns:
  assumes "reports_callback io error after res"
    and "fst after \<or> \<not> error \<or> error_is_set io (snd after)"
    and "after = (r, w')"
  shows "res = Inr (r, w')"
  using assms by (auto simp: reports_callback_def split: sum.splits)

lemma reports_callback_aborts:
  assumes "reports_callback io error after res"
    and "\<not> fst after" and "error" and "\<not> error_is_set io (snd after)"
  shows "res = Inl Assertion_failed"
  using assms by (auto simp: reports_callback_def split: sum.splits)

text \<open>
  Claim C5, amended. The configuration is valid, the other arguments pass the checks at
  the head of the function (a file name, a \<open>GFile\<close>, a \<open>GInputStream\<close>, a text that is
  not \<open>NULL\<close> or has length 0) and the error location is \<open>NULL\<close> or empty. A scanner
  constructor that fails sets the error, and \<open>gimp_scanner_new_string\<close>, whose result
  \<open>gimp_config_deserialize_string\<close> uses without a test, gives a scanner. Then each of
  the four functions returns \<open>FALSE\<close> in the world the constructor left, without calling
  the callback and with the error set when a location is supplied, if no scanner is
  created; and with a scanner it calls the callback and, when it returns, returns the
  callback's result: \<open>TRUE\<close> exactly when the callback succeeded, and \<open>FALSE\<close> with a
  supplied error location only with the error set, since the assertion aborts the
  program otherwise.
\<close>
theorem deserialize_reporting:
  assumes "get_interface ts config = Some (obj, iface)"
    and "\<not> error \<or> \<not> error_is_set io w"
    and "constructor_reports io error (gimp_scanner_new_file io fn error w)"
    and "constructor_reports io error (gimp_scanner_new_gfile io file error w)"
    and "constructor_reports io error (gimp_scanner_new_stream io input error w)"
    and "fst (gimp_scanner_new_string io text text_len error w) \<noteq> None"
    and "text \<noteq> None \<or> text_len = 0"
  shows
    "(case gimp_scanner_new_file io fn error w of
        (None, w1) \<Rightarrow>
          gimp_config_deserialize_file ts io config (Some fn) data error w = Inr (False, w1) \<and>
          (error \<longrightarrow> error_is_set io w1)
      | (Some scanner, w1) \<Rightarrow>
          reports_callback io error (after_callback io obj iface (Some scanner) data w1)
            (gimp_config_deserialize_file ts io config (Some fn) data error w)) \<and>
     (case gimp_scanner_new_gfile io file error w of
        (None, w1) \<Rightarrow>
          gimp_config_deserialize_gfile ts io config (Some file) data error w
            = Inr (False, w1) \<and>
          (error \<longrightarrow> error_is_set io w1)
      | (Some scanner, w1) \<Rightarrow>
          reports_callback io error (after_callback io obj iface (Some scanner) data w1)
            (gimp_config_deserialize_gfile ts io config (Some file) data error w)) \<and>
     (case gimp_scanner_new_stream io input error w of
        (None, w1) \<Rightarrow>
          gimp_config_deserialize_stream ts io config (Some input) data error w
            = Inr (False, w1) \<and>
          (error \<longrightarrow> error_is_set io w1)
      | (Some scanner, w1) \<Rightarrow>
          reports_callback io error (after_callback io obj iface (Some scanner) data w1)
            (gimp_config_deserialize_stream ts io config (Some input) data error w)) \<and>
     (case gimp_scanner_new_string io text text_len error w of
        (None, w1) \<Rightarrow>
          gimp_config_deserialize_string ts io config text text_len data error w
            = Inr (False, w1) \<and>
          (error \<longrightarrow> error_is_set io w1)
      | (Some scanner, w1) \<Rightarrow>
          reports_callback io error (after_callback io obj iface (Some scanner) data w1)
            (gimp_config_deserialize_string ts io config text text_len data error w))"
proof (intro conjI)
  show "case gimp_scanner_new_file io fn error w of
        (None, w1) \<Rightarrow>
          gimp_config_deserialize_file ts io config (Some fn) data error w = Inr (False, w1) \<and>
          (error \<longrightarrow> error_is_set io w1)
      | (Some scanner, w1) \<Rightarrow>
          reports_callback io error (after_callback io obj iface (Some scanner) data w1)
            (gimp_config_deserialize_file ts io config (Some fn) data error w)"
    using assms(1,2,3)
    by (auto simp: gimp_config_deserialize_file_def deserialize_with_reports
        constructor_reports_def split: prod.splits option.splits)
  show "case gimp_scanner_new_gfile io file error w of
        (None, w1) \<Rightarrow>
          gimp_config_deserialize_gfile ts io config (Some file) data error w
            = Inr (False, w1) \<and>
          (error \<longrightarrow> error_is_set io w1)
      | (Some scanner, w1) \<Rightarrow>
          reports_callback io error (after_callback io obj iface (Some scanner) data w1)
            (gimp_config_deserialize_gfile ts io config (Some file) data error w)"
    using assms(1,2,4)
    by (auto simp: gimp_config_deserialize_gfile_def deserialize_with_reports
        constructor_reports_def split: prod.splits option.splits)
  show "case gimp_scanner_new_stream io input error w of
        (None, w1) \<Rightarrow>
          gimp_config_deserialize_stream ts io config (Some input) data error w
            = Inr (False, w1) \<and>
          (error \<longrightarrow> error_is_set io w1)
      | (Some scanner, w1) \<Rightarrow>
          reports_callback io error (after_callback io obj iface (Some scanner) data w1)
            (gimp_config_deserialize_stream ts io config (Some input) data error w)"
    using assms(1,2,5)
    by (auto simp: gimp_config_deserialize_stream_def deserialize_with_reports
        constructor_reports_def split: prod.splits option.splits)
  show "case gimp_scanner_new_string io text text_len error w of
        (None, w1) \<Rightarrow>
          gimp_config_deserialize_string ts io config text text_len data error w
            = Inr (False, w1) \<and>
          (error \<longrightarrow> error_is_set io w1)
      | (Some scanner, w1) \<Rightarrow>
          reports_callback io error (after_callback io obj iface (Some scanner) data w1)
            (gimp_config_deserialize_string ts io config text text_len data error w)"
    using assms(1,2,6,7)
    by (auto simp: gimp_config_deserialize_string_def deserialize_with_reports
        split: prod.splits option.splits)
qed

text \<open>
  Claim C5 as stated fails on the checks at the head of a function: with a valid
  configuration, an empty error location and no file name,
  \<open>gimp_config_deserialize_file\<close> returns \<open>FALSE\<close> and the error is not set.
\<close>
theorem deserialize_precondition_counterexample:
  "GIMP_IS_CONFIG sample_types (Some (sample_object 10 5 1)) \<and>
   gimp_config_deserialize_file sample_types sample_io (Some (sample_object 10 5 1))
     None 0 True \<lparr>calls = 0, gerror = False, buffer = []\<rparr>
     = Inr (False, \<lparr>calls = 0, gerror = False, buffer = []\<rparr>) \<and>
   \<not> error_is_set sample_io \<lparr>calls = 0, gerror = False, buffer = []\<rparr>"
  by (simp add: GIMP_IS_CONFIG_def sample_interface gimp_config_deserialize_file_def
      sample_io_def)

theorem deserialize_reporting_witness:
  "gimp_config_deserialize_file sample_types sample_io (Some (sample_object 10 5 1))
     (Some ''/nonexistent/rc'') 0 True \<lparr>calls = 0, gerror = False, buffer = []\<rparr>
     = Inr (False, \<lparr>calls = 0, gerror = True, buffer = []\<rparr>) \<and>
   gimp_config_deserialize_file sample_types sample_io (Some (sample_object 10 5 1))
     (Some ''gimprc'') 0 True \<lparr>calls = 0, gerror = False, buffer = []\<rparr>
     = Inr (True, \<lparr>calls = 1, gerror = False, buffer = []\<rparr>) \<and>
   gimp_config_deserialize_gfile sample_types sample_io (Some (sample_object 10 5 1))
     (Some 4) 1 True \<lparr>calls = 0, gerror = False, buffer = []\<rparr>
     = Inr (False, \<lparr>calls = 1, gerror = True, buffer = []\<rparr>) \<and>
   gimp_config_deserialize_stream sample_types sample_io (Some (sample_object 10 5 1))
     (Some 4) 2 True \<lparr>calls = 0, gerror = False, buffer = []\<rparr>
     = Inl Assertion_failed \<and>
   gimp_config_deserialize_string sample_types sample_io (Some (sample_object 10 5 1))
     (Some ''(x 1)'') 5 2 False \<lparr>calls = 0, gerror = False, buffer = []\<rparr>
     = Inr (False, \<lparr>calls = 1, gerror = False, buffer = []\<rparr>)"
proof -
  let ?w = "\<lparr>calls = 0, gerror = False, buffer = []\<rparr>"
  let ?o = "sample_object 10 5 1"
  have e: "\<not> True \<or> \<not> error_is_set sample_io ?w" "\<not> False \<or> \<not> error_is_set sample_io ?w"
    by (simp_all add: sample_io_def)
  have c: "constructor_reports sample_io err (gimp_scanner_new_file sample_io fn err ?w)"
    "constructor_reports sample_io err (gimp_scanner_new_gfile sample_io 4 err ?w)"
    "constructor_reports sample_io err (gimp_scanner_new_stream sample_io 4 err ?w)"
    "fst (gimp_scanner_new_string sample_io (Some ''(x 1)'') 5 err ?w) \<noteq> None" for err fn
    by (simp_all add: constructor_reports_def sample_io_def)
  have t: "Some ''(x 1)'' \<noteq> None \<or> (5::int) = 0" by simp
  note i = sample_interface [of 10 5 1]
  note thm1 = deserialize_reporting [OF i e(1) c t]
  note thm2 = deserialize_reporting [OF i e(2) c t]
  have c1: "gimp_config_deserialize_file sample_types sample_io (Some ?o)
     (Some ''/nonexistent/rc'') 0 True ?w = Inr (False, \<lparr>calls = 0, gerror = True, buffer = []\<rparr>)"
    using thm1 [where fn = "''/nonexistent/rc''" and data = 0, THEN conjunct1]
    by (simp add: sample_io_def)
  have "reports_callback sample_io True
          (after_callback sample_io ?o sample_iface (Some 1) 0 ?w)
          (gimp_config_deserialize_file sample_types sample_io (Some ?o) (Some ''gimprc'') 0
             True ?w)"
    using thm1 [where fn = "''gimprc''" and data = 0, THEN conjunct1]
    by (simp add: sample_io_def)
  then have c2: "gimp_config_deserialize_file sample_types sample_io (Some ?o) (Some ''gimprc'')
                   0 True ?w = Inr (True, \<lparr>calls = 1, gerror = False, buffer = []\<rparr>)"
    by (rule reports_callback_returns)
      (simp_all add: after_callback_def sample_iface_def sample_io_def)
  have "reports_callback sample_io True
          (after_callback sample_io ?o sample_iface (Some 2) 1 ?w)
          (gimp_config_deserialize_gfile sample_types sample_io (Some ?o) (Some 4) 1 True ?w)"
    using thm1 [where fn = "''gimprc''" and data = 1, THEN conjunct2, THEN conjunct1]
    by (simp add: sample_io_def)
  then have c3: "gimp_config_deserialize_gfile sample_types sample_io (Some ?o) (Some 4) 1 True
                   ?w = Inr (False, \<lparr>calls = 1, gerror = True, buffer = []\<rparr>)"
    by (rule reports_callback_returns)
      (simp_all add: after_callback_def sample_iface_def sample_io_def)
  have "reports_callback sample_io True
          (after_callback sample_io ?o sample_iface (Some 3) 2 ?w)
          (gimp_config_deserialize_stream sample_types sample_io (Some ?o) (Some 4) 2 True ?w)"
    using thm1 [where fn = "''gimprc''" and data = 2, THEN conjunct2, THEN conjunct2,
        THEN conjunct1]
    by (simp add: sample_io_def)
  then have c4: "gimp_config_deserialize_stream sample_types sample_io (Some ?o) (Some 4) 2 True
                   ?w = Inl Assertion_failed"
    by (rule reports_callback_aborts)
      (simp_all add: after_callback_def sample_iface_def sample_io_def)
  have "reports_callback sample_io False
          (after_callback sample_io ?o sample_iface (Some 4) 2 ?w)
          (gimp_config_deserialize_string sample_types sample_io (Some ?o) (Some ''(x 1)'') 5 2
             False ?w)"
    using thm2 [where fn = "''gimprc''" and data = 2, THEN conjunct2, THEN conjunct2,
        THEN conjunct2]
    by (simp add: sample_io_def)
  then have c5: "gimp_config_deserialize_string sample_types sample_io (Some ?o)
                   (Some ''(x 1)'') 5 2 False ?w
                   = Inr (False, \<lparr>calls = 1, gerror = False, buffer = []\<rparr>)"
    by (rule reports_callback_returns)
      (simp_all add: after_callback_def sample_iface_def sample_io_def)
  from c1 c2 c3 c4 c5 show ?thesis by simp
qed

text \<open>
  Claim C10, amended. For a valid configuration, a file name and an error location that
  is \<open>NULL\<close> or empty, \<open>gimp_config_serialize_to_file\<close> returns \<open>FALSE\<close> when no writer
  is created and otherwise what \<open>gimp_config_writer_finish\<close> returns in the world the
  callback left; the callback's boolean is not used. \<open>gimp_config_serialize_to_string\<close>
  uses neither the callback's boolean nor that of \<open>gimp_config_writer_finish\<close> and
  returns the character data of the string it created.
\<close>
theorem serialize_ignores_callback_result:
  assumes "get_interface ts config = Some (obj, iface)"
    and "\<not> error \<or> \<not> error_is_set io w"
  shows
    "gimp_config_serialize_to_file ts io config (Some fn) header footer data error w =
       (case gimp_config_writer_new_file io fn True header error w of
          (None, w1) \<Rightarrow> (False, w1)
        | (Some writer, w1) \<Rightarrow>
            gimp_config_writer_finish io (Some writer) footer error
              (snd (serialize iface obj (Some writer) data w1))) \<and>
     gimp_config_serialize_to_string ts io config data w =
       (case g_string_new io w of
          (str, w1) \<Rightarrow>
            (case gimp_config_writer_new_string io str w1 of
               (writer, w2) \<Rightarrow>
                 let w4 = snd (gimp_config_writer_finish io writer None False
                                 (snd (serialize iface obj writer data w2)))
                 in (Some (fst (g_string_free io str w4)), snd (g_string_free io str w4))))"
  using assms
  by (auto simp: gimp_config_serialize_to_file_def gimp_config_serialize_to_string_def Let_def
      split: prod.splits option.splits)

text \<open>
  Claim C10 as stated fails when the error location already holds an error: the writer
  can be created and finished, yet the function returns \<open>FALSE\<close> before it asks for one.
\<close>
theorem serialize_to_file_counterexample:
  "GIMP_IS_CONFIG sample_types (Some (sample_object 10 5 1)) \<and>
   fst (gimp_config_writer_new_file sample_io ''gimprc'' True None True
          \<lparr>calls = 0, gerror = True, buffer = []\<rparr>) = Some 1 \<and>
   fst (gimp_config_writer_finish sample_io (Some 1) None True
          \<lparr>calls = 0, gerror = True, buffer = []\<rparr>) = True \<and>
   gimp_config_serialize_to_file sample_types sample_io (Some (sample_object 10 5 1))
     (Some ''gimprc'') None None 0 True \<lparr>calls = 0, gerror = True, buffer = []\<rparr>
     = (False, \<lparr>calls = 0, gerror = True, buffer = []\<rparr>) \<and>
   gimp_config_serialize_to_file sample_types sample_io (Some (sample_object 10 5 1))
     (Some ''gimprc'') None None 0 True \<lparr>calls = 0, gerror = False, buffer = []\<rparr>
     = (True, \<lparr>calls = 1, gerror = False, buffer = ''(x 1)''\<rparr>)"
  by (simp add: GIMP_IS_CONFIG_def sample_interface gimp_config_serialize_to_file_def
      sample_io_def sample_iface_def)

theorem serialize_ignores_callback_result_witness:
  "fst (serialize sample_iface (sample_object 10 5 1) (Some 1) 0
          \<lparr>calls = 0, gerror = False, buffer = []\<rparr>) = False \<and>
   gimp_config_serialize_to_file sample_types sample_io (Some (sample_object 10 5 1))
     (Some ''gimprc'') None None 0 True \<lparr>calls = 0, gerror = False, buffer = []\<rparr>
     = (True, \<lparr>calls = 1, gerror = False, buffer = ''(x 1)''\<rparr>) \<and>
   gimp_config_serialize_to_file sample_types sample_io (Some (sample_object 10 5 1))
     (Some ''/nonexistent/rc'') None None 0 True \<lparr>calls = 0, gerror = False, buffer = []\<rparr>
     = (False, \<lparr>calls = 0, gerror = False, buffer = []\<rparr>) \<and>
   gimp_config_serialize_to_string sample_types sample_io (Some (sample_object 10 5 1)) 0
     \<lparr>calls = 0, gerror = False, buffer = ''old''\<rparr>
     = (Some ''(x 1)'', \<lparr>calls = 1, gerror = False, buffer = ''(x 1)''\<rparr>)"
proof -
  let ?w = "\<lparr>calls = 0, gerror = False, buffer = []\<rparr>"
  let ?w' = "\<lparr>calls = 0, gerror = False, buffer = ''old''\<rparr>"
  have e: "\<not> True \<or> \<not> error_is_set sample_io ?w" "\<not> True \<or> \<not> error_is_set sample_io ?w'"
    by (simp_all add: sample_io_def)
  note i = sample_interface [of 10 5 1]
  show ?thesis
    using serialize_ignores_callback_result [OF i e(1), of "''gimprc''" None None 0]
      serialize_ignores_callback_result [OF i e(1), of "''/nonexistent/rc''" None None 0]
      serialize_ignores_callback_result [OF i e(2), of "''gimprc''" None None 0]
    by (simp add: sample_io_def sample_iface_def)
qed

lemma equal_loop_all:
  "equal_loop ts a b ps =
     (\<forall>p\<in>set ps. pspec_flags p AND G_PARAM_READABLE \<noteq> 0 \<longrightarrow> property_equal ts a b p)"
  by (induction ps) (auto simp: property_equal_def Let_def)

lemma is_equal_to_default:
  assumes "config_interface ts (g_type a) = Some iface"
    and "equal_impl iface = Iface_equal"
    and "g_type b = g_type a"
  shows "gimp_config_is_equal_to ts (Some a) (Some b) =
     (\<forall>p\<in>set (list_properties ts (g_type a)).
         pspec_flags p AND G_PARAM_READABLE \<noteq> 0 \<longrightarrow> property_equal ts a b p)"
  using assms by (simp add: get_interface_def equal_loop_all)

text \<open>
  Claim C6. For two objects of the same type whose \<open>equal\<close> slot is the default
  implementation, \<open>gimp_config_is_equal_to\<close> is \<open>TRUE\<close> exactly when every readable
  property has values that compare equal, or is an aggregate, object-valued property
  whose value type implements \<open>GimpConfig\<close> and whose two objects are equal for
  \<open>gimp_config_is_equal_to\<close>. Properties that are not readable do not count: two
  objects \<open>a'\<close> and \<open>b'\<close> of that type with the readable values of \<open>a\<close> and \<open>b\<close> give
  the same result.
\<close>
theorem default_equal_is_propertywise:
  assumes "config_interface ts (g_type a) = Some iface"
    and "equal_impl iface = Iface_equal"
    and "g_type b = g_type a"
  shows
    "gimp_config_is_equal_to ts (Some a) (Some b) =
       (\<forall>p\<in>set (list_properties ts (g_type a)).
          pspec_flags p AND G_PARAM_READABLE \<noteq> 0 \<longrightarrow>
            (param_values_cmp ts p (g_object_get_property a (pspec_name p))
                                   (g_object_get_property b (pspec_name p)) = 0 \<or>
             (pspec_flags p AND GIMP_CONFIG_PARAM_AGGREGATE \<noteq> 0 \<and>
              is_param_spec_object p \<and>
              config_interface ts (value_type p) \<noteq> None \<and>
              gimp_config_is_equal_to ts
                (g_value_get_object (g_object_get_property a (pspec_name p)))
                (g_value_get_object (g_object_get_property b (pspec_name p)))))) \<and>
     (g_type a' = g_type a \<and> g_type b' = g_type a \<and>
      (\<forall>p\<in>set (list_properties ts (g_type a)).
          pspec_flags p AND G_PARAM_READABLE \<noteq> 0 \<longrightarrow>
            g_object_get_property a' (pspec_name p) = g_object_get_property a (pspec_name p) \<and>
            g_object_get_property b' (pspec_name p) = g_object_get_property b (pspec_name p))
      \<longrightarrow> gimp_config_is_equal_to ts (Some a') (Some b')
            = gimp_config_is_equal_to ts (Some a) (Some b))"
proof (intro conjI impI)
  show "gimp_config_is_equal_to ts (Some a) (Some b) =
       (\<forall>p\<in>set (list_properties ts (g_type a)).
          pspec_flags p AND G_PARAM_READABLE \<noteq> 0 \<longrightarrow>
            (param_values_cmp ts p (g_object_get_property a (pspec_name p))
                                   (g_object_get_property b (pspec_name p)) = 0 \<or>
             (pspec_flags p AND GIMP_CONFIG_PARAM_AGGREGATE \<noteq> 0 \<and>
              is_param_spec_object p \<and>
              config_interface ts (value_type p) \<noteq> None \<and>
              gimp_config_is_equal_to ts
                (g_value_get_object (g_object_get_property a (pspec_name p)))
                (g_value_get_object (g_object_get_property b (pspec_name p))))))"
    unfolding is_equal_to_default [OF assms] by (simp add: property_equal_def Let_def)
next
  assume h: "g_type a' = g_type a \<and> g_type b' = g_type a \<and>
      (\<forall>p\<in>set (list_properties ts (g_type a)).
          pspec_flags p AND G_PARAM_READABLE \<noteq> 0 \<longrightarrow>
            g_object_get_property a' (pspec_name p) = g_object_get_property a (pspec_name p) \<and>
            g_object_get_property b' (pspec_name p) = g_object_get_property b (pspec_name p))"
  then have i': "config_interface ts (g_type a') = Some iface" and t': "g_type b' = g_type a'"
    using assms(1) by simp_all
  have "property_equal ts a' b' p = property_equal ts a b p"
    if "p \<in> set (list_properties ts (g_type a))" "pspec_flags p AND G_PARAM_READABLE \<noteq> 0" for p
    using h that by (simp add: property_equal_def)
  then show "gimp_config_is_equal_to ts (Some a') (Some b')
            = gimp_config_is_equal_to ts (Some a) (Some b)"
    unfolding is_equal_to_default [OF assms] is_equal_to_default [OF i' assms(2) t']
    using h by auto
qed

theorem default_equal_is_propertywise_witness:
  "gimp_config_is_equal_to sample_types (Some (sample_object 10 5 1))
     (Some (sample_object 20 5 2)) = True \<and>
   gimp_config_is_equal_to sample_types (Some (sample_object 10 5 1))
     (Some (sample_object 20 6 1)) = False \<and>
   param_values_cmp sample_types
     \<lparr>pspec_name = ''child'', pspec_flags = 513, value_type = 2, is_param_spec_object = True\<rparr>
     (g_object_get_property (sample_object 10 5 1) ''child'')
     (g_object_get_property (sample_object 20 5 2) ''child'') = - 1"
proof -
  let ?A = "sample_object 10 5 1"
  have i: "config_interface sample_types (g_type ?A) = Some sample_iface"
    by (simp add: sample_types_def sample_object_def)
  have e: "equal_impl sample_iface = Iface_equal"
    by (simp add: sample_iface_def)
  have t: "g_type (sample_object 20 x s) = g_type ?A" for x s
    by (simp add: sample_object_def)
  have child: "gimp_config_is_equal_to sample_types
                 (Some (GObject 2 11 [(''x'', V_int 5)])) (Some (GObject 2 21 [(''x'', V_int y)]))
               = (y = 5)" for y
    by (simp add: get_interface_def sample_types_def sample_iface_def G_PARAM_READABLE_def
        g_object_get_property_def)
  have f: "(513 :: 32 word) AND 1 \<noteq> 0" "(2 :: 32 word) AND 1 = 0" "(1 :: 32 word) AND 512 = 0"
    "(513 :: 32 word) AND 512 \<noteq> 0" "push_bit 9 (1 :: 32 word) = 512"
    by simp_all
  note defs = sample_types_def sample_object_def g_object_get_property_def
    g_value_get_object_def G_PARAM_READABLE_def GIMP_CONFIG_PARAM_AGGREGATE_def
    G_PARAM_USER_SHIFT_def
  have r1: "gimp_config_is_equal_to sample_types (Some ?A) (Some (sample_object 20 5 2)) = True"
    apply (subst default_equal_is_propertywise [where ts = sample_types and a = ?A
          and b = "sample_object 20 5 2" and iface = sample_iface, OF i e t, THEN conjunct1])
    using child f
    apply (simp del: gimp_config_is_equal_to.simps add: defs)
    done
  have r2: "gimp_config_is_equal_to sample_types (Some ?A) (Some (sample_object 20 6 1)) = False"
    apply (subst default_equal_is_propertywise [where ts = sample_types and a = ?A
          and b = "sample_object 20 6 1" and iface = sample_iface, OF i e t, THEN conjunct1])
    using child f
    apply (simp del: gimp_config_is_equal_to.simps add: defs)
    done
  have c: "param_values_cmp sample_types
     \<lparr>pspec_name = ''child'', pspec_flags = 513, value_type = 2, is_param_spec_object = True\<rparr>
     (g_object_get_property ?A ''child'')
     (g_object_get_property (sample_object 20 5 2) ''child'') = - 1"
    by (simp add: defs)
  from r1 r2 c show ?thesis by simp
qed

end
